theory Spec2Isabelle
  imports Complex_Main
begin

section \<open>QwertyGhost: the keyboard simulators\<close>

text \<open>
  The repository holds three programs that share most of their code: the full-size
  board (\<^verbatim>\<open>full_board.cpp\<close>), the single-key switch demo (\<^verbatim>\<open>mx_green\<close>) and the
  compact board (\<^verbatim>\<open>with numbers and functions.cpp\<close>).

  A C++ \<^verbatim>\<open>float\<close> or \<^verbatim>\<open>double\<close> is modelled by the real number it denotes.  The
  arithmetic of the animation and of the keycap geometry is the arithmetic of IEEE 754
  binary32: every operation of the code is followed by the rounding \<open>f32\<close> defined below.
  The layout and the pointer handlers add and compare key coordinates only; there the
  operations are written without rounding (the coordinates of the layouts are integers and
  halves, which binary32 adds exactly at the sizes of a screen).
\<close>

subsection \<open>Data model\<close>

text \<open>\<^verbatim>\<open>glm::vec2\<close>: two floats.\<close>

datatype vec2 = Vec2 (vx: real) (vy: real)

text \<open>\<^verbatim>\<open>enum class KeyType\<close> of the full-size board.\<close>

datatype KeyType =
  ALPHANUM | FUNCTION | MODIFIER | NAVIGATION | ARROW | NUMPAD | BACKGROUND_ONLY

text \<open>
  \<^verbatim>\<open>struct Key\<close>.  The compact board's struct has the first five fields; the
  single-key demo adds \<^verbatim>\<open>keycapRemoved\<close> and the full-size board adds
  \<^verbatim>\<open>keycapRemoved\<close> and \<^verbatim>\<open>type\<close>, in this order, so the larger struct is an
  extension of the smaller one.  The field \<^verbatim>\<open>size\<close> is named \<open>ksize\<close> and the field
  \<^verbatim>\<open>type\<close> is named \<open>ktype\<close>.
\<close>

record Key =
  label :: string
  pos :: vec2
  ksize :: vec2
  pressAnim :: real
  isPressed :: bool

record BoardKey = Key +
  keycapRemoved :: bool
  ktype :: KeyType

subsection \<open>Binary floating point\<close>

text \<open>
  Rounding to the nearest integer, ties to the even one.
\<close>

definition round_even :: "real \<Rightarrow> int" where
  "round_even r =
     (let f = \<lfloor>r\<rfloor>; d = r - of_int f
      in if d < 1 / 2 then f else if 1 / 2 < d then f + 1 else if even f then f else f + 1)"

text \<open>
  Rounding to a binary format with \<open>t\<close> fraction bits and least normal exponent \<open>emin\<close>,
  to nearest, ties to even.  The numbers of the format near \<open>x\<close> are the multiples of
  \<open>fl_ulp t emin x\<close>, which is \<open>2 ^ (e - t)\<close> for the binary exponent \<open>e\<close> of \<open>x\<close>, and
  \<open>2 ^ (emin - t)\<close> in the subnormal range.  The format is taken without an upper bound:
  overflow to infinity and NaN are not modelled.
\<close>

definition fl_exponent :: "int \<Rightarrow> real \<Rightarrow> int" where
  "fl_exponent emin x = max emin \<lfloor>log 2 \<bar>x\<bar>\<rfloor>"

definition fl_ulp :: "nat \<Rightarrow> int \<Rightarrow> real \<Rightarrow> real" where
  "fl_ulp t emin x = 2 powr (of_int (fl_exponent emin x) - real t)"

definition fl_round :: "nat \<Rightarrow> int \<Rightarrow> real \<Rightarrow> real" where
  "fl_round t emin x = sgn x * (fl_ulp t emin x * of_int (round_even (\<bar>x\<bar> / fl_ulp t emin x)))"

text \<open>
  \<^verbatim>\<open>float\<close> is binary32 and \<^verbatim>\<open>double\<close> is binary64.  A \<^verbatim>\<open>float\<close> operation of the code
  \<^verbatim>\<open>a + b\<close> is \<open>f32 (a + b)\<close>, a literal \<^verbatim>\<open>0.9f\<close> is \<open>f32 0.9\<close>, a literal \<^verbatim>\<open>0.15\<close> is
  \<open>f64 0.15\<close> and \<^verbatim>\<open>static_cast<float>(d)\<close> is \<open>f32 d\<close>.  Each operation is rounded on its
  own: no fused multiply-add and no wider intermediate precision.  A binary32 number is
  an \<open>x\<close> with \<open>f32 x = x\<close>; the literals written without \<open>f32\<close> below (0, 0.5, 1, 10
  and the key depths) are such numbers.
\<close>

definition f32 :: "real \<Rightarrow> real" where
  "f32 = fl_round 23 (- 126)"

definition f64 :: "real \<Rightarrow> real" where
  "f64 = fl_round 52 (- 1022)"

subsection \<open>Animation\<close>

definition PRESS_FEEDBACK_DURATION :: real where
  "PRESS_FEEDBACK_DURATION = 0.15"

text \<open>
  \<^verbatim>\<open>updateKeyAnimation(Key& key, float deltaTime)\<close>: the same body in the three
  programs.  It reads and writes \<^verbatim>\<open>pressAnim\<close> and reads \<^verbatim>\<open>isPressed\<close> only, so
  it is defined for every extension of the struct.  This first reading takes every
  operation as exact; the reading in binary32 follows it.
\<close>

definition updateKeyAnimation :: "'a Key_scheme \<Rightarrow> real \<Rightarrow> 'a Key_scheme" where
  "updateKeyAnimation key deltaTime =
     (let animSpeed = 0.5 / PRESS_FEEDBACK_DURATION;
          target = (if isPressed key then 0.5 else 0.0)
      in if pressAnim key < target then
           (let key1 = key\<lparr>pressAnim := pressAnim key + animSpeed * deltaTime\<rparr>
            in if pressAnim key1 > target then key1\<lparr>pressAnim := target\<rparr> else key1)
         else if pressAnim key > target then
           (let key1 = key\<lparr>pressAnim := pressAnim key - animSpeed * deltaTime\<rparr>
            in if pressAnim key1 < target then key1\<lparr>pressAnim := target\<rparr> else key1)
         else key)"

text \<open>
  The constant as the program holds it, \<^verbatim>\<open>constexpr double PRESS_FEEDBACK_DURATION = 0.15\<close>:
  the binary64 number nearest to 0.15.
\<close>

definition PRESS_FEEDBACK_DURATION_f64 :: real where
  "PRESS_FEEDBACK_DURATION_f64 = f64 0.15"

text \<open>
  \<^verbatim>\<open>updateKeyAnimation\<close> in binary32: the division, the product
  \<^verbatim>\<open>animSpeed * deltaTime\<close> and the sum or difference of \<^verbatim>\<open>+=\<close> and \<^verbatim>\<open>-=\<close> are rounded.
\<close>

definition updateKeyAnimation_f32 :: "'a Key_scheme \<Rightarrow> real \<Rightarrow> 'a Key_scheme" where
  "updateKeyAnimation_f32 key deltaTime =
     (let animSpeed = f32 (0.5 / f32 PRESS_FEEDBACK_DURATION_f64);
          target = (if isPressed key then 0.5 else 0.0)
      in if pressAnim key < target then
           (let key1 = key\<lparr>pressAnim := f32 (pressAnim key + f32 (animSpeed * deltaTime))\<rparr>
            in if pressAnim key1 > target then key1\<lparr>pressAnim := target\<rparr> else key1)
         else if pressAnim key > target then
           (let key1 = key\<lparr>pressAnim := f32 (pressAnim key - f32 (animSpeed * deltaTime))\<rparr>
            in if pressAnim key1 < target then key1\<lparr>pressAnim := target\<rparr> else key1)
         else key)"

subsection \<open>Keycap geometry\<close>

text \<open>
  One \<^verbatim>\<open>glColor3f\<close> followed by \<^verbatim>\<open>glBegin(GL_QUADS)\<close>, four \<^verbatim>\<open>glVertex3f\<close> and
  \<^verbatim>\<open>glEnd\<close> is one coloured quad; a drawing function returns the quads it submits, in
  the order of submission.
\<close>

datatype vec3 = Vec3 (px: real) (py: real) (pz: real)

datatype quad = Quad (colour: "real \<times> real \<times> real") (v0: vec3) (v1: vec3) (v2: vec3) (v3: vec3)

text \<open>
  \<^verbatim>\<open>drawKeycap3D(const Key& key)\<close> of the full-size board and of the single-key demo.
  The body is the same in both; the global constant \<^verbatim>\<open>KEY_DEPTH\<close> it reads is 18 in
  the first and 20 in the second, so the constant is the first argument here.  All its
  arithmetic is \<^verbatim>\<open>float\<close> arithmetic: every operation is rounded to binary32, in the
  order in which the code writes it.
\<close>

definition KEY_DEPTH :: real where
  "KEY_DEPTH = 18"

definition KEY_DEPTH_single :: real where
  "KEY_DEPTH_single = 20"

definition drawKeycap3D :: "real \<Rightarrow> 'a Key_scheme \<Rightarrow> quad list" where
  "drawKeycap3D key_depth key =
     (let pressAnim = pressAnim key;
          bx = vx (pos key); by = vy (pos key);
          bw = vx (ksize key); bh = vy (ksize key);
          shiftLeft = f32 (10 * pressAnim);
          shiftUp = f32 (10 * pressAnim);
          pressOffsetZ = f32 (key_depth * pressAnim);
          newDepth = f32 (key_depth * f32 (1 - f32 (0.5 * pressAnim)));
          x = f32 (bx - shiftLeft);
          y = f32 (by - shiftUp);
          baseR = f32 0.9; baseG = f32 0.9; baseB = f32 0.85
      in [ \<comment> \<open>FRONT face\<close>
           Quad (baseR, baseG, baseB)
             (Vec3 x y (- pressOffsetZ))
             (Vec3 (f32 (x + bw)) y (- pressOffsetZ))
             (Vec3 (f32 (x + bw)) (f32 (y + bh)) (- pressOffsetZ))
             (Vec3 x (f32 (y + bh)) (- pressOffsetZ)),
           \<comment> \<open>TOP face\<close>
           Quad (f32 (baseR + f32 0.07), f32 (baseG + f32 0.07), f32 (baseB + f32 0.07))
             (Vec3 x y (- pressOffsetZ))
             (Vec3 (f32 (x + bw)) y (- pressOffsetZ))
             (Vec3 (f32 (f32 (x + bw) - newDepth)) (f32 (y - newDepth))
                (- f32 (pressOffsetZ + newDepth)))
             (Vec3 (f32 (x - newDepth)) (f32 (y - newDepth)) (- f32 (pressOffsetZ + newDepth))),
           \<comment> \<open>RIGHT face\<close>
           Quad (f32 (baseR - f32 0.05), f32 (baseG - f32 0.05), f32 (baseB - f32 0.05))
             (Vec3 (f32 (x + bw)) y (- pressOffsetZ))
             (Vec3 (f32 (x + bw)) (f32 (y + bh)) (- pressOffsetZ))
             (Vec3 (f32 (f32 (x + bw) - newDepth)) (f32 (f32 (y + bh) - newDepth))
                (- f32 (pressOffsetZ + newDepth)))
             (Vec3 (f32 (f32 (x + bw) - newDepth)) (f32 (y - newDepth))
                (- f32 (pressOffsetZ + newDepth))),
           \<comment> \<open>BOTTOM face\<close>
           Quad (f32 (baseR - f32 0.02), f32 (baseG - f32 0.02), f32 (baseB - f32 0.02))
             (Vec3 x (f32 (y + bh)) (- pressOffsetZ))
             (Vec3 (f32 (x + bw)) (f32 (y + bh)) (- pressOffsetZ))
             (Vec3 (f32 (f32 (x + bw) - newDepth)) (f32 (f32 (y + bh) - newDepth))
                (- f32 (pressOffsetZ + newDepth)))
             (Vec3 (f32 (x - newDepth)) (f32 (f32 (y + bh) - newDepth))
                (- f32 (pressOffsetZ + newDepth))),
           \<comment> \<open>LEFT face\<close>
           Quad (f32 (baseR - f32 0.03), f32 (baseG - f32 0.03), f32 (baseB - f32 0.03))
             (Vec3 x y (- pressOffsetZ))
             (Vec3 x (f32 (y + bh)) (- pressOffsetZ))
             (Vec3 (f32 (x - newDepth)) (f32 (f32 (y + bh) - newDepth))
                (- f32 (pressOffsetZ + newDepth)))
             (Vec3 (f32 (x - newDepth)) (f32 (y - newDepth)) (- f32 (pressOffsetZ + newDepth))) ])"

subsection \<open>Program state\<close>

text \<open>
  The globals of the boards: the vector \<^verbatim>\<open>keyboardKeys\<close> and the
  \<^verbatim>\<open>std::map<int, int> glfwKeyToIndex\<close>.  Launching the detached thread that runs the
  sound engine is the only effect outside the globals; \<open>sounds\<close> logs each launch, in
  order, as the index of the slot whose branch launched it.
\<close>

record 'k keyboard =
  keyboardKeys :: "'k list"
  glfwKeyToIndex :: "int \<rightharpoonup> int"
  sounds :: "nat list"

text \<open>The full-size board has three more globals.\<close>

record 'k board = "'k keyboard" +
  g_leftMouseDown :: bool
  g_mainStartX :: real
  g_mainStartY :: real

text \<open>
  \<^verbatim>\<open>std::vector::operator[]\<close> outside the vector is undefined behaviour; the model
  returns this error there.
\<close>

datatype error = IndexOutOfRange

subsection \<open>Constants of the GLFW header\<close>

text \<open>
  The key codes, actions and mouse buttons are macros of \<^verbatim>\<open>GLFW/glfw3.h\<close>, a library
  outside the repository; the values are those of GLFW 3.
\<close>

definition GLFW_RELEASE :: int where "GLFW_RELEASE = 0"
definition GLFW_PRESS :: int where "GLFW_PRESS = 1"
definition GLFW_REPEAT :: int where "GLFW_REPEAT = 2"
definition GLFW_MOUSE_BUTTON_LEFT :: int where "GLFW_MOUSE_BUTTON_LEFT = 0"
definition GLFW_MOUSE_BUTTON_RIGHT :: int where "GLFW_MOUSE_BUTTON_RIGHT = 1"

definition GLFW_KEY_SPACE :: int where "GLFW_KEY_SPACE = 32"
definition GLFW_KEY_APOSTROPHE :: int where "GLFW_KEY_APOSTROPHE = 39"
definition GLFW_KEY_MINUS :: int where "GLFW_KEY_MINUS = 45"
definition GLFW_KEY_0 :: int where "GLFW_KEY_0 = 48"
definition GLFW_KEY_1 :: int where "GLFW_KEY_1 = 49"
definition GLFW_KEY_2 :: int where "GLFW_KEY_2 = 50"
definition GLFW_KEY_3 :: int where "GLFW_KEY_3 = 51"
definition GLFW_KEY_4 :: int where "GLFW_KEY_4 = 52"
definition GLFW_KEY_5 :: int where "GLFW_KEY_5 = 53"
definition GLFW_KEY_6 :: int where "GLFW_KEY_6 = 54"
definition GLFW_KEY_7 :: int where "GLFW_KEY_7 = 55"
definition GLFW_KEY_8 :: int where "GLFW_KEY_8 = 56"
definition GLFW_KEY_9 :: int where "GLFW_KEY_9 = 57"
definition GLFW_KEY_SEMICOLON :: int where "GLFW_KEY_SEMICOLON = 59"
definition GLFW_KEY_EQUAL :: int where "GLFW_KEY_EQUAL = 61"
definition GLFW_KEY_A :: int where "GLFW_KEY_A = 65"
definition GLFW_KEY_B :: int where "GLFW_KEY_B = 66"
definition GLFW_KEY_C :: int where "GLFW_KEY_C = 67"
definition GLFW_KEY_D :: int where "GLFW_KEY_D = 68"
definition GLFW_KEY_E :: int where "GLFW_KEY_E = 69"
definition GLFW_KEY_F :: int where "GLFW_KEY_F = 70"
definition GLFW_KEY_G :: int where "GLFW_KEY_G = 71"
definition GLFW_KEY_H :: int where "GLFW_KEY_H = 72"
definition GLFW_KEY_I :: int where "GLFW_KEY_I = 73"
definition GLFW_KEY_J :: int where "GLFW_KEY_J = 74"
definition GLFW_KEY_K :: int where "GLFW_KEY_K = 75"
definition GLFW_KEY_L :: int where "GLFW_KEY_L = 76"
definition GLFW_KEY_M :: int where "GLFW_KEY_M = 77"
definition GLFW_KEY_N :: int where "GLFW_KEY_N = 78"
definition GLFW_KEY_O :: int where "GLFW_KEY_O = 79"
definition GLFW_KEY_P :: int where "GLFW_KEY_P = 80"
definition GLFW_KEY_Q :: int where "GLFW_KEY_Q = 81"
definition GLFW_KEY_R :: int where "GLFW_KEY_R = 82"
definition GLFW_KEY_S :: int where "GLFW_KEY_S = 83"
definition GLFW_KEY_T :: int where "GLFW_KEY_T = 84"
definition GLFW_KEY_U :: int where "GLFW_KEY_U = 85"
definition GLFW_KEY_V :: int where "GLFW_KEY_V = 86"
definition GLFW_KEY_W :: int where "GLFW_KEY_W = 87"
definition GLFW_KEY_X :: int where "GLFW_KEY_X = 88"
definition GLFW_KEY_Y :: int where "GLFW_KEY_Y = 89"
definition GLFW_KEY_Z :: int where "GLFW_KEY_Z = 90"
definition GLFW_KEY_LEFT_BRACKET :: int where "GLFW_KEY_LEFT_BRACKET = 91"
definition GLFW_KEY_RIGHT_BRACKET :: int where "GLFW_KEY_RIGHT_BRACKET = 93"
definition GLFW_KEY_GRAVE_ACCENT :: int where "GLFW_KEY_GRAVE_ACCENT = 96"
definition GLFW_KEY_ESCAPE :: int where "GLFW_KEY_ESCAPE = 256"
definition GLFW_KEY_BACKSPACE :: int where "GLFW_KEY_BACKSPACE = 259"
definition GLFW_KEY_INSERT :: int where "GLFW_KEY_INSERT = 260"
definition GLFW_KEY_DELETE :: int where "GLFW_KEY_DELETE = 261"
definition GLFW_KEY_RIGHT :: int where "GLFW_KEY_RIGHT = 262"
definition GLFW_KEY_LEFT :: int where "GLFW_KEY_LEFT = 263"
definition GLFW_KEY_DOWN :: int where "GLFW_KEY_DOWN = 264"
definition GLFW_KEY_UP :: int where "GLFW_KEY_UP = 265"
definition GLFW_KEY_PAGE_UP :: int where "GLFW_KEY_PAGE_UP = 266"
definition GLFW_KEY_PAGE_DOWN :: int where "GLFW_KEY_PAGE_DOWN = 267"
definition GLFW_KEY_HOME :: int where "GLFW_KEY_HOME = 268"
definition GLFW_KEY_END :: int where "GLFW_KEY_END = 269"
definition GLFW_KEY_F1 :: int where "GLFW_KEY_F1 = 290"
definition GLFW_KEY_LEFT_SHIFT :: int where "GLFW_KEY_LEFT_SHIFT = 340"
definition GLFW_KEY_LEFT_CONTROL :: int where "GLFW_KEY_LEFT_CONTROL = 341"
definition GLFW_KEY_LEFT_ALT :: int where "GLFW_KEY_LEFT_ALT = 342"
definition GLFW_KEY_RIGHT_SHIFT :: int where "GLFW_KEY_RIGHT_SHIFT = 344"
definition GLFW_KEY_RIGHT_CONTROL :: int where "GLFW_KEY_RIGHT_CONTROL = 345"
definition GLFW_KEY_RIGHT_ALT :: int where "GLFW_KEY_RIGHT_ALT = 346"

subsection \<open>Layout constants\<close>

text \<open>
  \<^verbatim>\<open>KEY_WIDTH\<close> and \<^verbatim>\<open>KEY_HEIGHT\<close> are 60 in both boards.  The compact board has one
  \<^verbatim>\<open>KEY_SPACING\<close>, the full-size board \<^verbatim>\<open>KEY_SPACING_X\<close> and \<^verbatim>\<open>KEY_SPACING_Y\<close>.
\<close>

definition KEY_WIDTH :: real where "KEY_WIDTH = 60"
definition KEY_HEIGHT :: real where "KEY_HEIGHT = 60"
definition KEY_SPACING :: real where "KEY_SPACING = 10"
definition KEY_SPACING_X :: real where "KEY_SPACING_X = 6"
definition KEY_SPACING_Y :: real where "KEY_SPACING_Y = 6"

subsection \<open>The compact board: layout and key callback\<close>

text \<open>
  The five row loops of \<^verbatim>\<open>initKeyboard\<close> run the same statements for one key: build
  a \<^verbatim>\<open>Key\<close> (its \<^verbatim>\<open>pressAnim\<close> and \<^verbatim>\<open>isPressed\<close> keep their default member
  initialisers), push it, and map the key code to the last index.
\<close>

definition pushKey :: "string \<Rightarrow> real \<Rightarrow> real \<Rightarrow> int \<Rightarrow> Key keyboard \<Rightarrow> Key keyboard" where
  "pushKey lbl startX startY glfwKey s =
     (let key = \<lparr>label = lbl, pos = Vec2 startX startY, ksize = Vec2 KEY_WIDTH KEY_HEIGHT,
                 pressAnim = 0, isPressed = False\<rparr>;
          s1 = s\<lparr>keyboardKeys := keyboardKeys s @ [key]\<rparr>
      in s1\<lparr>glfwKeyToIndex :=
              (glfwKeyToIndex s1)(glfwKey \<mapsto> int (length (keyboardKeys s1)) - 1)\<rparr>)"

text \<open>
  Row 0, \<^verbatim>\<open>for (const auto& label : funcKeys)\<close>: the key code is \<^verbatim>\<open>GLFW_KEY_F1\<close> plus
  the position \<open>i\<close> of the label in the vector.
\<close>

fun funcKeysLoop :: "string list \<Rightarrow> int \<Rightarrow> real \<Rightarrow> real \<Rightarrow> Key keyboard \<Rightarrow> Key keyboard" where
  "funcKeysLoop [] i startX startY s = s"
| "funcKeysLoop (lbl # rest) i startX startY s =
     funcKeysLoop rest (i + 1) (startX + (KEY_WIDTH + KEY_SPACING)) startY
       (pushKey lbl startX startY (GLFW_KEY_F1 + i) s)"

text \<open>Row 1, \<^verbatim>\<open>for (char c : numRow)\<close>.\<close>

fun numRowLoop :: "string \<Rightarrow> real \<Rightarrow> real \<Rightarrow> Key keyboard \<Rightarrow> Key keyboard" where
  "numRowLoop [] startX startY s = s"
| "numRowLoop (c # rest) startX startY s =
     numRowLoop rest (startX + (KEY_WIDTH + KEY_SPACING)) startY
       (pushKey [c] startX startY
          (let glfwKey = GLFW_KEY_1 + (of_char c - of_char (CHR ''1''))
           in if c = CHR ''0'' then GLFW_KEY_0 else glfwKey) s)"

text \<open>Rows 2, 3 and 4, \<^verbatim>\<open>for (char c : row1)\<close> and its two copies.\<close>

fun letterRowLoop :: "string \<Rightarrow> real \<Rightarrow> real \<Rightarrow> Key keyboard \<Rightarrow> Key keyboard" where
  "letterRowLoop [] startX startY s = s"
| "letterRowLoop (c # rest) startX startY s =
     letterRowLoop rest (startX + (KEY_WIDTH + KEY_SPACING)) startY
       (pushKey [c] startX startY (GLFW_KEY_A + (of_char c - of_char (CHR ''A''))) s)"

definition funcKeys :: "string list" where
  "funcKeys = [''F1'', ''F2'', ''F3'', ''F4'', ''F5'', ''F6'',
               ''F7'', ''F8'', ''F9'', ''F10'', ''F11'', ''F12'']"

text \<open>\<^verbatim>\<open>initKeyboard(int screenWidth, int screenHeight)\<close>; it reads neither argument.\<close>

definition initKeyboard :: "int \<Rightarrow> int \<Rightarrow> Key keyboard \<Rightarrow> Key keyboard" where
  "initKeyboard screenWidth screenHeight s0 =
     (let s = s0\<lparr>keyboardKeys := [], glfwKeyToIndex := Map.empty\<rparr>;
          \<comment> \<open>Row 0: function keys\<close>
          startX = KEY_SPACING;
          startY = KEY_SPACING;
          s = funcKeysLoop funcKeys 0 startX startY s;
          \<comment> \<open>Row 1: number keys\<close>
          startX = KEY_SPACING;
          startY = startY + (KEY_HEIGHT + KEY_SPACING);
          s = numRowLoop ''1234567890'' startX startY s;
          \<comment> \<open>Row 2: QWERTYUIOP\<close>
          startX = KEY_SPACING;
          startY = startY + (KEY_HEIGHT + KEY_SPACING);
          s = letterRowLoop ''QWERTYUIOP'' startX startY s;
          \<comment> \<open>Row 3: ASDFGHJKL\<close>
          startX = KEY_SPACING + (KEY_WIDTH + KEY_SPACING) / 2;
          startY = startY + (KEY_HEIGHT + KEY_SPACING);
          s = letterRowLoop ''ASDFGHJKL'' startX startY s;
          \<comment> \<open>Row 4: ZXCVBNM\<close>
          startX = KEY_SPACING + (KEY_WIDTH + KEY_SPACING);
          startY = startY + (KEY_HEIGHT + KEY_SPACING);
          s = letterRowLoop ''ZXCVBNM'' startX startY s
      in s)"

text \<open>
  \<^verbatim>\<open>keyCallback\<close> of the compact board.  The guard \<^verbatim>\<open>index < keyboardKeys.size()\<close>
  compares an \<^verbatim>\<open>int\<close> with a \<^verbatim>\<open>size_t\<close>: a negative index converts to a large
  unsigned value and fails it.
\<close>

definition keyCallback_compact ::
    "Key keyboard \<Rightarrow> int \<Rightarrow> int \<Rightarrow> int \<Rightarrow> int \<Rightarrow> Key keyboard" where
  "keyCallback_compact s key scancode action mods =
     (case glfwKeyToIndex s key of
        None \<Rightarrow> s
      | Some index \<Rightarrow>
          if 0 \<le> index \<and> index < int (length (keyboardKeys s)) then
            if action = GLFW_PRESS then
              s\<lparr>keyboardKeys :=
                   (keyboardKeys s)[nat index := (keyboardKeys s ! nat index)\<lparr>isPressed := True\<rparr>],
                sounds := sounds s @ [nat index]\<rparr>
            else if action = GLFW_RELEASE then
              s\<lparr>keyboardKeys :=
                   (keyboardKeys s)[nat index := (keyboardKeys s ! nat index)\<lparr>isPressed := False\<rparr>]\<rparr>
            else s
          else s)"

subsection \<open>The full-size board: layout\<close>

text \<open>\<^verbatim>\<open>addKey\<close>: push the key and, unless the key code is -1, map it to the last index.\<close>

definition addKey ::
    "string \<Rightarrow> real \<Rightarrow> real \<Rightarrow> real \<Rightarrow> real \<Rightarrow> KeyType \<Rightarrow> int \<Rightarrow> BoardKey board \<Rightarrow> BoardKey board" where
  "addKey lbl x y w h kt glfwKey s =
     (let k = \<lparr>label = lbl, pos = Vec2 x y, ksize = Vec2 w h, pressAnim = 0,
               isPressed = False, keycapRemoved = False, ktype = kt\<rparr>;
          s1 = s\<lparr>keyboardKeys := keyboardKeys s @ [k]\<rparr>
      in if glfwKey \<noteq> - 1 then
           (let idx = int (length (keyboardKeys s1)) - 1
            in s1\<lparr>glfwKeyToIndex := (glfwKeyToIndex s1)(glfwKey \<mapsto> idx)\<rparr>)
         else s1)"

text \<open>\<^verbatim>\<open>std::to_string\<close> on the numbers the layout uses (1 to 12): decimal digits.\<close>

fun to_string :: "nat \<Rightarrow> string" where
  "to_string n =
     (if n < 10 then [''0123456789'' ! n]
      else to_string (n div 10) @ [''0123456789'' ! (n mod 10)])"

declare to_string.simps [simp del]

text \<open>\<^verbatim>\<open>for (int i = 0; i < 12; i++)\<close> of row 1; it returns \<^verbatim>\<open>currentX\<close> too.\<close>

function fKeysLoop :: "nat \<Rightarrow> real \<Rightarrow> real \<Rightarrow> BoardKey board \<Rightarrow> real \<times> BoardKey board" where
  "fKeysLoop i currentX currentY s =
     (if i < 12 then
        fKeysLoop (i + 1) (currentX + (KEY_WIDTH + KEY_SPACING_X)) currentY
          (addKey (''F'' @ to_string (i + 1)) currentX currentY KEY_WIDTH KEY_HEIGHT
             FUNCTION (GLFW_KEY_F1 + int i) s)
      else (currentX, s))"
  by pat_completeness auto
termination
  by (relation "measure (\<lambda>(i, cx, cy, s). 12 - i)") auto

declare fKeysLoop.simps [simp del]

text \<open>\<^verbatim>\<open>for (auto& keyPair : row)\<close> of rows 2 to 5; it returns \<^verbatim>\<open>currentX\<close> too.\<close>

fun addRow ::
    "(string \<times> int) list \<Rightarrow> real \<Rightarrow> real \<Rightarrow> BoardKey board \<Rightarrow> real \<times> BoardKey board" where
  "addRow [] currentX currentY s = (currentX, s)"
| "addRow (keyPair # rest) currentX currentY s =
     addRow rest (currentX + (KEY_WIDTH + KEY_SPACING_X)) currentY
       (addKey (fst keyPair) currentX currentY KEY_WIDTH KEY_HEIGHT ALPHANUM (snd keyPair) s)"

definition row2 :: "(string \<times> int) list" where
  "row2 = [(''`'', GLFW_KEY_GRAVE_ACCENT),
           (''1'', GLFW_KEY_1), (''2'', GLFW_KEY_2), (''3'', GLFW_KEY_3),
           (''4'', GLFW_KEY_4), (''5'', GLFW_KEY_5), (''6'', GLFW_KEY_6),
           (''7'', GLFW_KEY_7), (''8'', GLFW_KEY_8), (''9'', GLFW_KEY_9),
           (''0'', GLFW_KEY_0), (''-'', GLFW_KEY_MINUS), (''='', GLFW_KEY_EQUAL)]"

definition row3 :: "(string \<times> int) list" where
  "row3 = [(''Q'', GLFW_KEY_Q), (''W'', GLFW_KEY_W), (''E'', GLFW_KEY_E),
           (''R'', GLFW_KEY_R), (''T'', GLFW_KEY_T), (''Y'', GLFW_KEY_Y),
           (''U'', GLFW_KEY_U), (''I'', GLFW_KEY_I), (''O'', GLFW_KEY_O),
           (''P'', GLFW_KEY_P), (''['', GLFW_KEY_LEFT_BRACKET), ('']'', GLFW_KEY_RIGHT_BRACKET)]"

definition row4 :: "(string \<times> int) list" where
  "row4 = [(''A'', GLFW_KEY_A), (''S'', GLFW_KEY_S), (''D'', GLFW_KEY_D),
           (''F'', GLFW_KEY_F), (''G'', GLFW_KEY_G), (''H'', GLFW_KEY_H),
           (''J'', GLFW_KEY_J), (''K'', GLFW_KEY_K), (''L'', GLFW_KEY_L),
           ('';'', GLFW_KEY_SEMICOLON), ([CHR 0x27], GLFW_KEY_APOSTROPHE)]"

definition row5 :: "(string \<times> int) list" where
  "row5 = [(''Z'', GLFW_KEY_Z), (''X'', GLFW_KEY_X), (''C'', GLFW_KEY_C),
           (''V'', GLFW_KEY_V), (''B'', GLFW_KEY_B), (''N'', GLFW_KEY_N),
           (''M'', GLFW_KEY_M)]"

text \<open>
  \<^verbatim>\<open>initKeyboardLayout()\<close>: it reads the globals \<^verbatim>\<open>g_mainStartX\<close> and
  \<^verbatim>\<open>g_mainStartY\<close>, clears the vector and the map and adds the keys row by row.
\<close>

definition initKeyboardLayout :: "BoardKey board \<Rightarrow> BoardKey board" where
  "initKeyboardLayout s0 =
     (let s = s0\<lparr>keyboardKeys := [], glfwKeyToIndex := Map.empty\<rparr>;
          startX = g_mainStartX s;
          startY = g_mainStartY s;
          currentX = startX;
          currentY = startY;
          \<comment> \<open>Row 1: Esc + F-keys\<close>
          s = addKey ''Esc'' currentX currentY KEY_WIDTH KEY_HEIGHT FUNCTION GLFW_KEY_ESCAPE s;
          currentX = currentX + (KEY_WIDTH + KEY_SPACING_X);
          (currentX, s) = fKeysLoop 0 currentX currentY s;
          \<comment> \<open>Row 2: number row and Backspace\<close>
          currentX = startX;
          currentY = currentY + (KEY_HEIGHT + KEY_SPACING_Y);
          (currentX, s) = addRow row2 currentX currentY s;
          s = addKey ''Backspace'' currentX currentY (KEY_WIDTH * 1.5) KEY_HEIGHT MODIFIER
                GLFW_KEY_BACKSPACE s;
          \<comment> \<open>Row 3: QWERTY row\<close>
          currentX = startX;
          currentY = currentY + (KEY_HEIGHT + KEY_SPACING_Y);
          (currentX, s) = addRow row3 currentX currentY s;
          \<comment> \<open>Row 4: ASDF row\<close>
          currentX = startX;
          currentY = currentY + (KEY_HEIGHT + KEY_SPACING_Y);
          (currentX, s) = addRow row4 currentX currentY s;
          \<comment> \<open>Row 5: Shift row\<close>
          currentX = startX;
          currentY = currentY + (KEY_HEIGHT + KEY_SPACING_Y);
          s = addKey ''Shift'' currentX currentY (KEY_WIDTH * 1.5) KEY_HEIGHT MODIFIER
                GLFW_KEY_LEFT_SHIFT s;
          currentX = currentX + (KEY_WIDTH * 1.5 + KEY_SPACING_X);
          (currentX, s) = addRow row5 currentX currentY s;
          s = addKey ''Shift'' currentX currentY (KEY_WIDTH * 1.5) KEY_HEIGHT MODIFIER
                GLFW_KEY_RIGHT_SHIFT s;
          \<comment> \<open>Row 6: bottom row\<close>
          bottomRowY = currentY + KEY_HEIGHT + KEY_SPACING_Y;
          currentX = startX;
          s = addKey ''Ctrl'' currentX bottomRowY (KEY_WIDTH * 1.2) KEY_HEIGHT MODIFIER
                GLFW_KEY_LEFT_CONTROL s;
          currentX = currentX + (KEY_WIDTH * 1.2 + KEY_SPACING_X);
          s = addKey ''Alt'' currentX bottomRowY KEY_WIDTH KEY_HEIGHT MODIFIER GLFW_KEY_LEFT_ALT s;
          currentX = currentX + (KEY_WIDTH + KEY_SPACING_X);
          s = addKey ''Space'' currentX bottomRowY (KEY_WIDTH * 6) KEY_HEIGHT ALPHANUM
                GLFW_KEY_SPACE s;
          currentX = currentX + (KEY_WIDTH * 6 + KEY_SPACING_X);
          s = addKey ''Alt'' currentX bottomRowY KEY_WIDTH KEY_HEIGHT MODIFIER GLFW_KEY_RIGHT_ALT s;
          currentX = currentX + (KEY_WIDTH + KEY_SPACING_X);
          s = addKey ''Ctrl'' currentX bottomRowY (KEY_WIDTH * 1.2) KEY_HEIGHT MODIFIER
                GLFW_KEY_RIGHT_CONTROL s;
          \<comment> \<open>Arrow keys\<close>
          arrowBlockX = g_mainStartX s + 948 + KEY_SPACING_X * 10;
          arrowRowY = bottomRowY;
          arrowUpY = arrowRowY - (KEY_HEIGHT + KEY_SPACING_Y);
          s = addKey ''Left'' arrowBlockX arrowRowY KEY_WIDTH KEY_HEIGHT ARROW GLFW_KEY_LEFT s;
          s = addKey ''Down'' (arrowBlockX + (KEY_WIDTH + KEY_SPACING_X)) arrowRowY
                KEY_WIDTH KEY_HEIGHT ARROW GLFW_KEY_DOWN s;
          s = addKey ''Right'' (arrowBlockX + 2 * (KEY_WIDTH + KEY_SPACING_X)) arrowRowY
                KEY_WIDTH KEY_HEIGHT ARROW GLFW_KEY_RIGHT s;
          s = addKey ''Up'' (arrowBlockX + (KEY_WIDTH + KEY_SPACING_X)) arrowUpY
                KEY_WIDTH KEY_HEIGHT ARROW GLFW_KEY_UP s;
          \<comment> \<open>Navigation keys\<close>
          navBlockX = arrowBlockX;
          navBlockY2 = arrowUpY - 2 * (KEY_HEIGHT + KEY_SPACING_Y);
          navBlockY1 = navBlockY2 - (KEY_HEIGHT + KEY_SPACING_Y);
          s = addKey ''Ins'' navBlockX navBlockY1 KEY_WIDTH KEY_HEIGHT NAVIGATION GLFW_KEY_INSERT s;
          s = addKey ''Home'' (navBlockX + (KEY_WIDTH + KEY_SPACING_X)) navBlockY1
                KEY_WIDTH KEY_HEIGHT NAVIGATION GLFW_KEY_HOME s;
          s = addKey ''PgUp'' (navBlockX + 2 * (KEY_WIDTH + KEY_SPACING_X)) navBlockY1
                KEY_WIDTH KEY_HEIGHT NAVIGATION GLFW_KEY_PAGE_UP s;
          s = addKey ''Del'' navBlockX navBlockY2 KEY_WIDTH KEY_HEIGHT NAVIGATION GLFW_KEY_DELETE s;
          s = addKey ''End'' (navBlockX + (KEY_WIDTH + KEY_SPACING_X)) navBlockY2
                KEY_WIDTH KEY_HEIGHT NAVIGATION GLFW_KEY_END s;
          s = addKey ''PgDn'' (navBlockX + 2 * (KEY_WIDTH + KEY_SPACING_X)) navBlockY2
                KEY_WIDTH KEY_HEIGHT NAVIGATION GLFW_KEY_PAGE_DOWN s
      in s)"

subsection \<open>The full-size board: input callbacks\<close>

text \<open>
  \<^verbatim>\<open>keyCallback\<close> of the full-size board.  It indexes the vector without a guard.
\<close>

definition keyCallback ::
    "'a BoardKey_scheme board \<Rightarrow> int \<Rightarrow> int \<Rightarrow> int \<Rightarrow> int \<Rightarrow> error + 'a BoardKey_scheme board" where
  "keyCallback s key scancode action mods =
     (case glfwKeyToIndex s key of
        None \<Rightarrow> Inr s
      | Some index \<Rightarrow>
          if action = GLFW_PRESS then
            if 0 \<le> index \<and> index < int (length (keyboardKeys s)) then
              Inr (s\<lparr>keyboardKeys :=
                        (keyboardKeys s)[nat index := (keyboardKeys s ! nat index)\<lparr>isPressed := True\<rparr>],
                     sounds := sounds s @ [nat index]\<rparr>)
            else Inl IndexOutOfRange
          else if action = GLFW_RELEASE then
            if 0 \<le> index \<and> index < int (length (keyboardKeys s)) then
              Inr (s\<lparr>keyboardKeys :=
                        (keyboardKeys s)[nat index := (keyboardKeys s ! nat index)\<lparr>isPressed := False\<rparr>]\<rparr>)
            else Inl IndexOutOfRange
          else Inr s)"

text \<open>
  The hit test the three pointer handlers write out:
  \<^verbatim>\<open>xpos >= k.pos.x && xpos <= k.pos.x + k.size.x && ypos >= k.pos.y && ypos <= k.pos.y + k.size.y\<close>.
\<close>

definition cursorOver :: "real \<Rightarrow> real \<Rightarrow> 'a Key_scheme \<Rightarrow> bool" where
  "cursorOver xpos ypos k \<longleftrightarrow>
     xpos \<ge> vx (pos k) \<and> xpos \<le> vx (pos k) + vx (ksize k) \<and>
     ypos \<ge> vy (pos k) \<and> ypos \<le> vy (pos k) + vy (ksize k)"

text \<open>
  The loop of the left press: the first key under the cursor is pressed and a sound
  thread is launched, then \<^verbatim>\<open>break\<close>.  \<open>i\<close> is the index of the head of the list; the
  second component is the log of the launches.
\<close>

fun pressLoop :: "real \<Rightarrow> real \<Rightarrow> nat \<Rightarrow> 'a Key_scheme list \<Rightarrow> 'a Key_scheme list \<times> nat list" where
  "pressLoop xpos ypos i [] = ([], [])"
| "pressLoop xpos ypos i (k # ks) =
     (if cursorOver xpos ypos k then (k\<lparr>isPressed := True\<rparr> # ks, [i])
      else (let (ks', log) = pressLoop xpos ypos (Suc i) ks in (k # ks', log)))"

text \<open>The loop of the right press: the first key under the cursor is toggled, then \<^verbatim>\<open>break\<close>.\<close>

fun toggleLoop :: "real \<Rightarrow> real \<Rightarrow> 'a BoardKey_scheme list \<Rightarrow> 'a BoardKey_scheme list" where
  "toggleLoop xpos ypos [] = []"
| "toggleLoop xpos ypos (k # ks) =
     (if cursorOver xpos ypos k then k\<lparr>keycapRemoved := \<not> keycapRemoved k\<rparr> # ks
      else k # toggleLoop xpos ypos ks)"

text \<open>
  The loop of the cursor handler: no \<^verbatim>\<open>break\<close>.  A key under the cursor that is not
  pressed is pressed and launches a sound thread; a key not under the cursor is released.
\<close>

fun dragLoop :: "real \<Rightarrow> real \<Rightarrow> nat \<Rightarrow> 'a Key_scheme list \<Rightarrow> 'a Key_scheme list \<times> nat list" where
  "dragLoop xpos ypos i [] = ([], [])"
| "dragLoop xpos ypos i (k # ks) =
     (let (ks', log) = dragLoop xpos ypos (Suc i) ks
      in if cursorOver xpos ypos k then
           (if \<not> isPressed k then (k\<lparr>isPressed := True\<rparr> # ks', i # log) else (k # ks', log))
         else (k\<lparr>isPressed := False\<rparr> # ks', log))"

text \<open>
  \<^verbatim>\<open>mouse_button_callback\<close>.  The cursor position it reads with
  \<^verbatim>\<open>glfwGetCursorPos\<close> is the pair of arguments \<open>xpos\<close>, \<open>ypos\<close>.
\<close>

definition mouse_button_callback ::
    "'a BoardKey_scheme board \<Rightarrow> real \<Rightarrow> real \<Rightarrow> int \<Rightarrow> int \<Rightarrow> int \<Rightarrow> 'a BoardKey_scheme board" where
  "mouse_button_callback s xpos ypos button action mods =
     (if button = GLFW_MOUSE_BUTTON_LEFT then
        if action = GLFW_PRESS then
          (let (ks, log) = pressLoop xpos ypos 0 (keyboardKeys s)
           in s\<lparr>keyboardKeys := ks, sounds := sounds s @ log, g_leftMouseDown := True\<rparr>)
        else if action = GLFW_RELEASE then
          s\<lparr>keyboardKeys := map (\<lambda>k. k\<lparr>isPressed := False\<rparr>) (keyboardKeys s),
            g_leftMouseDown := False\<rparr>
        else s
      else if button = GLFW_MOUSE_BUTTON_RIGHT then
        if action = GLFW_PRESS then
          s\<lparr>keyboardKeys := toggleLoop xpos ypos (keyboardKeys s)\<rparr>
        else s
      else s)"

text \<open>\<^verbatim>\<open>cursor_position_callback\<close>.\<close>

definition cursor_position_callback ::
    "'a BoardKey_scheme board \<Rightarrow> real \<Rightarrow> real \<Rightarrow> 'a BoardKey_scheme board" where
  "cursor_position_callback s xpos ypos =
     (if g_leftMouseDown s then
        (let (ks, log) = dragLoop xpos ypos 0 (keyboardKeys s)
         in s\<lparr>keyboardKeys := ks, sounds := sounds s @ log\<rparr>)
      else s)"

text \<open>A sequence of pointer-move events, in order.\<close>

fun cursor_moves :: "'a BoardKey_scheme board \<Rightarrow> (real \<times> real) list \<Rightarrow> 'a BoardKey_scheme board" where
  "cursor_moves s [] = s"
| "cursor_moves s (p # ps) = cursor_moves (cursor_position_callback s (fst p) (snd p)) ps"

text \<open>The open rectangle of a key: the cursor is strictly inside it.\<close>

definition strictlyInside :: "real \<Rightarrow> real \<Rightarrow> 'a Key_scheme \<Rightarrow> bool" where
  "strictlyInside xpos ypos k \<longleftrightarrow>
     vx (pos k) < xpos \<and> xpos < vx (pos k) + vx (ksize k) \<and>
     vy (pos k) < ypos \<and> ypos < vy (pos k) + vy (ksize k)"

text \<open>
  The part of \<^verbatim>\<open>main\<close> of the full-size board that places the layout: the main block
  is centred in the window, then \<^verbatim>\<open>initKeyboardLayout\<close> runs.
\<close>

definition main_init :: "real \<Rightarrow> real \<Rightarrow> BoardKey board \<Rightarrow> BoardKey board" where
  "main_init windowWidth windowHeight s0 =
     (let mainBlockWidth = 948;
          mainBlockHeight = 6 * KEY_HEIGHT + 5 * KEY_SPACING_Y;
          s = s0\<lparr>g_mainStartX := (windowWidth - mainBlockWidth) / 2,
                 g_mainStartY := (windowHeight - mainBlockHeight) / 2\<rparr>
      in initKeyboardLayout s)"

subsection \<open>Initial states and examples\<close>

text \<open>The globals as their initialisers leave them, before \<^verbatim>\<open>main\<close> runs.\<close>

definition initial_keyboard :: "Key keyboard" where
  "initial_keyboard = \<lparr>keyboardKeys = [], glfwKeyToIndex = Map.empty, sounds = []\<rparr>"

definition initial_board :: "BoardKey board" where
  "initial_board = \<lparr>keyboardKeys = [], glfwKeyToIndex = Map.empty, sounds = [],
                     g_leftMouseDown = False, g_mainStartX = 50, g_mainStartY = 50\<rparr>"

text \<open>
  The full-size board on a primary monitor of 1920 by 1080 pixels.  Its Q key (slot 27)
  covers 486..546 by 477..537 and its W key (slot 28) covers 552..612 by 477..537.
\<close>

definition board_1080p :: "BoardKey board" where
  "board_1080p = main_init 1920 1080 initial_board"

text \<open>
  A board of two keys that share the edge \<open>x = 60\<close>, built with \<^verbatim>\<open>addKey\<close>.  No
  layout of the repository places keys like this; it is the input of the examples about
  a cursor that is over two keys at once.
\<close>

definition adjacentKeys :: "BoardKey board" where
  "adjacentKeys =
     addKey ''Y'' 60 0 KEY_WIDTH KEY_HEIGHT ALPHANUM GLFW_KEY_Y
       (addKey ''X'' 0 0 KEY_WIDTH KEY_HEIGHT ALPHANUM GLFW_KEY_X initial_board)"

subsection \<open>Notions used in the statements\<close>

text \<open>
  The lookup of a state is well formed: two key codes never share a slot, and every slot
  it names is an index of the vector.
\<close>

definition lookup_wf :: "('k, 'a) keyboard_scheme \<Rightarrow> bool" where
  "lookup_wf s \<longleftrightarrow>
     (\<forall>k1 k2 i. glfwKeyToIndex s k1 = Some i \<and> glfwKeyToIndex s k2 = Some i \<longrightarrow> k1 = k2) \<and>
     (\<forall>k i. glfwKeyToIndex s k = Some i \<longrightarrow> 0 \<le> i \<and> i < int (length (keyboardKeys s)))"

text \<open>
  A row of the compact board in closed form: the labels from left to right, the first key
  at \<open>(x0, y)\<close>, each next key \<^verbatim>\<open>KEY_WIDTH + KEY_SPACING\<close> further right.
\<close>

definition keyRow :: "string list \<Rightarrow> real \<Rightarrow> real \<Rightarrow> Key list" where
  "keyRow labels x0 y =
     map (\<lambda>(j, l). \<lparr>label = l, pos = Vec2 (x0 + real j * (KEY_WIDTH + KEY_SPACING)) y,
                     ksize = Vec2 KEY_WIDTH KEY_HEIGHT, pressAnim = 0, isPressed = False\<rparr>)
       (enumerate 0 labels)"

text \<open>
  The full-size layout in closed form: label, offset from
  \<^verbatim>\<open>(g_mainStartX, g_mainStartY)\<close>, width and type of every slot, in slot order.
\<close>

definition boardTable :: "(string \<times> real \<times> real \<times> real \<times> KeyType) list" where
  "boardTable = [
      (''Esc'', 0, 0, 60, FUNCTION), (''F1'', 66, 0, 60, FUNCTION),
      (''F2'', 132, 0, 60, FUNCTION), (''F3'', 198, 0, 60, FUNCTION),
      (''F4'', 264, 0, 60, FUNCTION), (''F5'', 330, 0, 60, FUNCTION),
      (''F6'', 396, 0, 60, FUNCTION), (''F7'', 462, 0, 60, FUNCTION),
      (''F8'', 528, 0, 60, FUNCTION), (''F9'', 594, 0, 60, FUNCTION),
      (''F10'', 660, 0, 60, FUNCTION), (''F11'', 726, 0, 60, FUNCTION),
      (''F12'', 792, 0, 60, FUNCTION), ([CHR 0x60], 0, 66, 60, ALPHANUM),
      (''1'', 66, 66, 60, ALPHANUM), (''2'', 132, 66, 60, ALPHANUM),
      (''3'', 198, 66, 60, ALPHANUM), (''4'', 264, 66, 60, ALPHANUM),
      (''5'', 330, 66, 60, ALPHANUM), (''6'', 396, 66, 60, ALPHANUM),
      (''7'', 462, 66, 60, ALPHANUM), (''8'', 528, 66, 60, ALPHANUM),
      (''9'', 594, 66, 60, ALPHANUM), (''0'', 660, 66, 60, ALPHANUM),
      (''-'', 726, 66, 60, ALPHANUM), (''='', 792, 66, 60, ALPHANUM),
      (''Backspace'', 858, 66, 90, MODIFIER), (''Q'', 0, 132, 60, ALPHANUM),
      (''W'', 66, 132, 60, ALPHANUM), (''E'', 132, 132, 60, ALPHANUM),
      (''R'', 198, 132, 60, ALPHANUM), (''T'', 264, 132, 60, ALPHANUM),
      (''Y'', 330, 132, 60, ALPHANUM), (''U'', 396, 132, 60, ALPHANUM),
      (''I'', 462, 132, 60, ALPHANUM), (''O'', 528, 132, 60, ALPHANUM),
      (''P'', 594, 132, 60, ALPHANUM), (''['', 660, 132, 60, ALPHANUM),
      ('']'', 726, 132, 60, ALPHANUM), (''A'', 0, 198, 60, ALPHANUM),
      (''S'', 66, 198, 60, ALPHANUM), (''D'', 132, 198, 60, ALPHANUM),
      (''F'', 198, 198, 60, ALPHANUM), (''G'', 264, 198, 60, ALPHANUM),
      (''H'', 330, 198, 60, ALPHANUM), (''J'', 396, 198, 60, ALPHANUM),
      (''K'', 462, 198, 60, ALPHANUM), (''L'', 528, 198, 60, ALPHANUM),
      ('';'', 594, 198, 60, ALPHANUM), ([CHR 0x27], 660, 198, 60, ALPHANUM),
      (''Shift'', 0, 264, 90, MODIFIER), (''Z'', 96, 264, 60, ALPHANUM),
      (''X'', 162, 264, 60, ALPHANUM), (''C'', 228, 264, 60, ALPHANUM),
      (''V'', 294, 264, 60, ALPHANUM), (''B'', 360, 264, 60, ALPHANUM),
      (''N'', 426, 264, 60, ALPHANUM), (''M'', 492, 264, 60, ALPHANUM),
      (''Shift'', 558, 264, 90, MODIFIER), (''Ctrl'', 0, 330, 72, MODIFIER),
      (''Alt'', 78, 330, 60, MODIFIER), (''Space'', 144, 330, 360, ALPHANUM),
      (''Alt'', 510, 330, 60, MODIFIER), (''Ctrl'', 576, 330, 72, MODIFIER),
      (''Left'', 1008, 330, 60, ARROW), (''Down'', 1074, 330, 60, ARROW),
      (''Right'', 1140, 330, 60, ARROW), (''Up'', 1074, 264, 60, ARROW),
      (''Ins'', 1008, 66, 60, NAVIGATION), (''Home'', 1074, 66, 60, NAVIGATION),
      (''PgUp'', 1140, 66, 60, NAVIGATION), (''Del'', 1008, 132, 60, NAVIGATION),
      (''End'', 1074, 132, 60, NAVIGATION), (''PgDn'', 1140, 132, 60, NAVIGATION)]"

definition boardKeys :: "real \<Rightarrow> real \<Rightarrow> BoardKey list" where
  "boardKeys startX startY =
     map (\<lambda>(l, dx, dy, w, kt).
            \<lparr>label = l, pos = Vec2 (startX + dx) (startY + dy), ksize = Vec2 w KEY_HEIGHT,
             pressAnim = 0, isPressed = False, keycapRemoved = False, ktype = kt\<rparr>)
       boardTable"

text \<open>
  Two lists of keys have the same rectangles, slot by slot.  The handlers write
  \<^verbatim>\<open>isPressed\<close>, \<^verbatim>\<open>keycapRemoved\<close> and \<^verbatim>\<open>pressAnim\<close> only, so the keys of a running board
  keep the rectangles of the layout.
\<close>

definition sameRects :: "'a Key_scheme list \<Rightarrow> 'b Key_scheme list \<Rightarrow> bool" where
  "sameRects ks ks' \<longleftrightarrow> map pos ks = map pos ks' \<and> map ksize ks = map ksize ks'"

text \<open>
  How often a flag turns from false to true along a list of its later values, starting
  from the value \<open>b\<close>: with "the cursor is over the key" as the flag, the number of times
  the cursor enters the key's rectangle while the key is not pressed.
\<close>

fun entries :: "bool \<Rightarrow> bool list \<Rightarrow> nat" where
  "entries b [] = 0"
| "entries b (c # cs) = (if c \<and> \<not> b then 1 else 0) + entries c cs"

text \<open>
  Two entries of the table are apart: their closed rectangles have no point in common.
\<close>

definition apart :: "(string \<times> real \<times> real \<times> real \<times> KeyType) \<Rightarrow> (string \<times> real \<times> real \<times> real \<times> KeyType) \<Rightarrow> bool" where
  "apart a b \<longleftrightarrow>
     (case a of (la, xa, ya, wa, ta) \<Rightarrow> case b of (lb, xb, yb, wb, tb) \<Rightarrow>
        xa + wa < xb \<or> xb + wb < xa \<or> ya + KEY_HEIGHT < yb \<or> yb + KEY_HEIGHT < ya)"

fun all_apart :: "(string \<times> real \<times> real \<times> real \<times> KeyType) list \<Rightarrow> bool" where
  "all_apart [] = True"
| "all_apart (a # as) = (list_all (apart a) as \<and> all_apart as)"

section \<open>Theorems\<close>

subsection \<open>Rounding\<close>

text \<open>
  Rounding is monotone, keeps the sign, is within half a unit in the last place of its
  argument, and is computed on a number of a known binade by rounding its multiple of
  the unit in the last place.
\<close>

lemma round_even_of_int [simp]: "round_even (of_int n) = n"
  by (simp add: round_even_def)

lemma round_even_bounds: "\<lfloor>r\<rfloor> \<le> round_even r" "round_even r \<le> \<lfloor>r\<rfloor> + 1"
  by (simp_all add: round_even_def Let_def)

lemma round_even_error: "\<bar>of_int (round_even r) - r\<bar> \<le> 1 / 2"
proof -
  have "of_int \<lfloor>r\<rfloor> \<le> r" "r < of_int \<lfloor>r\<rfloor> + 1" by linarith+
  then show ?thesis by (auto simp: round_even_def Let_def)
qed

lemma round_even_mono:
  assumes "r \<le> s"
  shows "round_even r \<le> round_even s"
proof (cases "\<lfloor>r\<rfloor> = \<lfloor>s\<rfloor>")
  case True
  then show ?thesis using assms by (auto simp: round_even_def Let_def)
next
  case False
  then have "\<lfloor>r\<rfloor> < \<lfloor>s\<rfloor>" using floor_mono [OF assms] by linarith
  then show ?thesis using round_even_bounds(2) [of r] round_even_bounds(1) [of s] by linarith
qed

lemma round_even_nonneg: "0 \<le> r \<Longrightarrow> 0 \<le> round_even r"
  using round_even_mono [of 0 r] round_even_of_int [of 0] by simp

lemma fl_ulp_pos: "0 < fl_ulp t emin x"
  by (simp add: fl_ulp_def)

lemma fl_round_zero [simp]: "fl_round t emin 0 = 0"
  by (simp add: fl_round_def)

lemma fl_exponent_minus [simp]: "fl_exponent emin (- x) = fl_exponent emin x"
  by (simp add: fl_exponent_def)

lemma fl_ulp_minus [simp]: "fl_ulp t emin (- x) = fl_ulp t emin x"
  by (simp add: fl_ulp_def)

lemma fl_round_minus: "fl_round t emin (- x) = - fl_round t emin x"
  by (simp add: fl_round_def sgn_minus)

lemma fl_round_pos_eq:
  "0 < x \<Longrightarrow> fl_round t emin x = fl_ulp t emin x * of_int (round_even (x / fl_ulp t emin x))"
  by (simp add: fl_round_def)

lemma fl_round_nonneg: "0 \<le> x \<Longrightarrow> 0 \<le> fl_round t emin x"
proof (cases "x = 0")
  case True
  then show ?thesis by simp
next
  case False
  assume "0 \<le> x"
  with False have x: "0 < x" by simp
  have "0 \<le> round_even (x / fl_ulp t emin x)"
    using x fl_ulp_pos [of t emin x] by (intro round_even_nonneg) simp
  then show ?thesis using fl_ulp_pos [of t emin x] by (simp add: fl_round_pos_eq [OF x])
qed

lemma powr_floor_log:
  assumes "0 < x"
  shows "2 powr of_int \<lfloor>log 2 x\<rfloor> \<le> x" "x < 2 powr of_int (\<lfloor>log 2 x\<rfloor> + 1)"
  using floor_log_eq_powr_iff [of x 2 "\<lfloor>log 2 x\<rfloor>"] assms by simp_all

lemma fl_exponent_upper:
  assumes "0 < x"
  shows "x < 2 powr of_int (fl_exponent emin x + 1)"
proof -
  have "x < 2 powr of_int (\<lfloor>log 2 x\<rfloor> + 1)" using powr_floor_log(2) [OF assms] .
  also have "\<dots> \<le> 2 powr of_int (fl_exponent emin x + 1)"
    using assms by (simp add: fl_exponent_def)
  finally show ?thesis .
qed

lemma fl_exponent_lower:
  assumes "0 < x" and "emin < fl_exponent emin x"
  shows "2 powr of_int (fl_exponent emin x) \<le> x"
proof -
  have "fl_exponent emin x = \<lfloor>log 2 x\<rfloor>"
    using assms by (simp add: fl_exponent_def max_def split: if_splits)
  then show ?thesis using powr_floor_log(1) [OF assms(1)] by simp
qed

lemma fl_exponent_mono:
  assumes "0 < x" and "x \<le> y"
  shows "fl_exponent emin x \<le> fl_exponent emin y"
proof -
  have "log 2 x \<le> log 2 y" using assms by simp
  then have "\<lfloor>log 2 x\<rfloor> \<le> \<lfloor>log 2 y\<rfloor>" by (rule floor_mono)
  then show ?thesis using assms by (simp add: fl_exponent_def)
qed

lemma two_powr_nat: "(2::real) powr real n = 2 ^ n"
  by (simp add: powr_realpow)

lemma two_powr_minus_nat: "(2::real) powr (- real n) = 1 / 2 ^ n"
  by (simp add: powr_minus_divide powr_realpow)

lemma grid_power:
  fixes e k :: int and t :: nat
  assumes "e - int t \<le> k"
  shows "(2::real) powr (of_int e - real t)
           * of_int (round_even (2 powr of_int k / 2 powr (of_int e - real t)))
         = 2 powr of_int k"
proof -
  define m where "m = nat (k - e + int t)"
  have m: "int m = k - e + int t" using assms by (simp add: m_def)
  have "real m = real_of_int (int m)" by simp
  also have "\<dots> = of_int k - (of_int e - real t)" unfolding m by simp
  finally have rm: "of_int k - (of_int e - real t) = real m" by simp
  have "2 powr of_int k / 2 powr (of_int e - real t)
      = (2::real) powr (of_int k - (of_int e - real t))"
    by (simp add: powr_diff)
  also have "\<dots> = (2::real) powr real m" by (simp only: rm)
  also have "(2::real) powr real m = of_int (2 ^ m)"
    by (simp add: two_powr_nat)
  finally have q: "(2::real) powr of_int k / 2 powr (of_int e - real t) = of_int (2 ^ m)" .
  have "(2::real) powr (of_int e - real t)
        * of_int (round_even (2 powr of_int k / 2 powr (of_int e - real t)))
      = 2 powr (of_int e - real t) * (2 powr of_int k / 2 powr (of_int e - real t))"
    unfolding q round_even_of_int by simp
  then show ?thesis by simp
qed

lemma fl_round_pos_mono:
  assumes x: "0 < x" and xy: "x \<le> y"
  shows "fl_round t emin x \<le> fl_round t emin y"
proof -
  have y: "0 < y" using assms by simp
  let ?e1 = "fl_exponent emin x" and ?e2 = "fl_exponent emin y"
  let ?u1 = "fl_ulp t emin x" and ?u2 = "fl_ulp t emin y"
  have le: "?e1 \<le> ?e2" using fl_exponent_mono [OF x xy] .
  show ?thesis
  proof (cases "?e1 = ?e2")
    case True
    then have u: "?u1 = ?u2" by (simp add: fl_ulp_def)
    have "x / ?u2 \<le> y / ?u2"
      using xy fl_ulp_pos [of t emin y] by (simp add: divide_right_mono)
    then have "round_even (x / ?u2) \<le> round_even (y / ?u2)"
      by (rule round_even_mono)
    then show ?thesis
      using fl_ulp_pos [of t emin y] by (simp add: fl_round_pos_eq [OF x] fl_round_pos_eq [OF y] u)
  next
    case False
    with le have lt: "?e1 < ?e2" by simp
    then have e2: "emin < ?e2" by (simp add: fl_exponent_def)
    have xup: "x \<le> 2 powr of_int (?e1 + 1)" using fl_exponent_upper [OF x, of emin] by simp
    have ylow: "2 powr of_int ?e2 \<le> y" using fl_exponent_lower [OF y e2] .
    have "x / ?u1 \<le> 2 powr of_int (?e1 + 1) / ?u1"
      using xup fl_ulp_pos [of t emin x] by (simp add: divide_right_mono)
    then have "round_even (x / ?u1) \<le> round_even (2 powr of_int (?e1 + 1) / ?u1)"
      by (rule round_even_mono)
    then have "fl_round t emin x \<le> ?u1 * of_int (round_even (2 powr of_int (?e1 + 1) / ?u1))"
      using fl_ulp_pos [of t emin x] by (simp add: fl_round_pos_eq [OF x])
    also have "\<dots> = 2 powr of_int (?e1 + 1)"
      unfolding fl_ulp_def by (rule grid_power) simp
    finally have a: "fl_round t emin x \<le> 2 powr of_int (?e1 + 1)" .
    have "2 powr of_int ?e2 / ?u2 \<le> y / ?u2"
      using ylow fl_ulp_pos [of t emin y] by (simp add: divide_right_mono)
    then have "round_even (2 powr of_int ?e2 / ?u2) \<le> round_even (y / ?u2)"
      by (rule round_even_mono)
    then have "?u2 * of_int (round_even (2 powr of_int ?e2 / ?u2)) \<le> fl_round t emin y"
      using fl_ulp_pos [of t emin y] by (simp add: fl_round_pos_eq [OF y])
    moreover have "?u2 * of_int (round_even (2 powr of_int ?e2 / ?u2)) = 2 powr of_int ?e2"
      unfolding fl_ulp_def by (rule grid_power) simp
    ultimately have b: "2 powr of_int ?e2 \<le> fl_round t emin y" by simp
    have "(2::real) powr of_int (?e1 + 1) \<le> 2 powr of_int ?e2"
      using lt by simp
    then show ?thesis using a b by linarith
  qed
qed

lemma fl_round_mono:
  assumes "x \<le> y"
  shows "fl_round t emin x \<le> fl_round t emin y"
proof -
  consider "0 < x" | "x \<le> 0" "0 \<le> y" | "y < 0" by linarith
  then show ?thesis
  proof cases
    case 1
    then show ?thesis using assms by (rule fl_round_pos_mono)
  next
    case 2
    have "fl_round t emin x \<le> 0"
      using fl_round_nonneg [of "- x" t emin] 2(1) by (simp add: fl_round_minus)
    moreover have "0 \<le> fl_round t emin y" using 2(2) by (rule fl_round_nonneg)
    ultimately show ?thesis by simp
  next
    case 3
    have "fl_round t emin (- y) \<le> fl_round t emin (- x)"
      using 3 assms by (intro fl_round_pos_mono) simp_all
    then show ?thesis by (simp add: fl_round_minus)
  qed
qed

lemma fl_round_normal:
  fixes e :: int
  assumes "0 < x" and "emin \<le> e" and "2 powr of_int e \<le> x" and "x < 2 powr of_int (e + 1)"
  shows "fl_round t emin x
       = 2 powr (of_int e - real t) * of_int (round_even (x / 2 powr (of_int e - real t)))"
proof -
  have "\<lfloor>log 2 x\<rfloor> = e"
    using floor_log_eq_powr_iff [of x 2 e] assms by simp
  then have "fl_exponent emin x = e" using assms by (simp add: fl_exponent_def)
  then show ?thesis using assms(1) by (simp add: fl_round_pos_eq fl_ulp_def)
qed

lemma fl_round_small:
  fixes n :: nat
  assumes "emin \<le> - int n" and "1 \<le> x * 2 ^ n" and "x * 2 ^ n < 2"
  shows "fl_round t emin x = of_int (round_even (x * 2 ^ (n + t))) / 2 ^ (n + t)"
proof -
  have "0 < x * 2 ^ n" using assms(2) by linarith
  then have x: "0 < x" by (simp add: zero_less_mult_iff)
  have e: "real_of_int (- int n) = - real n" "real_of_int (- int n + 1) = 1 - real n" by simp_all
  have p: "(2::real) powr (- real n) = 1 / 2 ^ n"
    by (rule two_powr_minus_nat)
  have "(2::real) powr (1 - real n) = 2 powr 1 * 2 powr (- real n)"
    using powr_add [of "2::real" 1 "- real n"] by simp
  then have p1: "(2::real) powr (1 - real n) = 2 / 2 ^ n"
    by (simp add: p)
  have lo: "2 powr real_of_int (- int n) \<le> x"
    unfolding e p using assms(2) by (simp add: field_simps)
  have hi: "x < 2 powr real_of_int (- int n + 1)"
    unfolding e p1 using assms(3) by (simp add: field_simps)
  have "of_int (- int n) - real t = - real (n + t)" by simp
  then have u: "(2::real) powr (of_int (- int n) - real t) = 1 / 2 ^ (n + t)"
    by (simp only: two_powr_minus_nat)
  have "fl_round t emin x = 2 powr (of_int (- int n) - real t)
      * of_int (round_even (x / 2 powr (of_int (- int n) - real t)))"
    using x assms(1) lo hi by (rule fl_round_normal)
  then show ?thesis unfolding u by simp
qed

lemma fl_round_large:
  fixes n :: nat
  assumes "emin \<le> int n" and "n \<le> t" and "2 ^ n \<le> x" and "x < 2 ^ (n + 1)"
  shows "fl_round t emin x = of_int (round_even (x * 2 ^ (t - n))) / 2 ^ (t - n)"
proof -
  have "(0::real) < 2 ^ n" by simp
  then have x: "0 < x" using assms(3) by linarith
  have e: "real_of_int (int n) = real n" "real_of_int (int n + 1) = real (n + 1)" by simp_all
  have lo: "2 powr real_of_int (int n) \<le> x"
    unfolding e two_powr_nat using assms(3) .
  have hi: "x < 2 powr real_of_int (int n + 1)"
    unfolding e two_powr_nat using assms(4) .
  have "of_int (int n) - real t = - real (t - n)" using assms(2) by (simp add: of_nat_diff)
  then have u: "(2::real) powr (of_int (int n) - real t) = 1 / 2 ^ (t - n)"
    by (simp only: two_powr_minus_nat)
  have "fl_round t emin x = 2 powr (of_int (int n) - real t)
      * of_int (round_even (x / 2 powr (of_int (int n) - real t)))"
    using x assms(1) lo hi by (rule fl_round_normal)
  then show ?thesis unfolding u by simp
qed

lemma fl_round_error_ulp: "\<bar>fl_round t emin x - x\<bar> \<le> fl_ulp t emin x / 2"
proof (cases "x = 0")
  case True
  then show ?thesis using fl_ulp_pos [of t emin 0] by simp
next
  case False
  let ?u = "fl_ulp t emin x"
  let ?r = "real_of_int (round_even (\<bar>x\<bar> / ?u))"
  have u: "0 < ?u" by (rule fl_ulp_pos)
  have "fl_round t emin x - x = sgn x * (?u * ?r - \<bar>x\<bar>)"
    by (simp add: fl_round_def algebra_simps flip: abs_sgn mult_sgn_abs)
      (metis mult.commute mult_sgn_abs)
  then have "\<bar>fl_round t emin x - x\<bar> = \<bar>?u * ?r - \<bar>x\<bar>\<bar>"
    using False by (simp add: abs_mult abs_sgn_eq)
  also have "?u * ?r - \<bar>x\<bar> = ?u * (?r - \<bar>x\<bar> / ?u)"
    using u by (simp add: algebra_simps)
  also have "\<bar>?u * (?r - \<bar>x\<bar> / ?u)\<bar> = ?u * \<bar>?r - \<bar>x\<bar> / ?u\<bar>"
    using u by (simp add: abs_mult)
  also have "\<dots> \<le> ?u * (1 / 2)"
    using u round_even_error [of "\<bar>x\<bar> / ?u"] by (intro mult_left_mono) simp_all
  finally show ?thesis by simp
qed

lemma fl_ulp_le:
  assumes "x \<noteq> 0"
  shows "fl_ulp t emin x \<le> \<bar>x\<bar> / 2 ^ t + 2 powr (of_int emin - real t)"
proof (cases "emin \<le> \<lfloor>log 2 \<bar>x\<bar>\<rfloor>")
  case True
  have a: "0 < \<bar>x\<bar>" using assms by simp
  have "fl_exponent emin x = \<lfloor>log 2 \<bar>x\<bar>\<rfloor>" using True by (simp add: fl_exponent_def)
  then have "fl_ulp t emin x = 2 powr of_int \<lfloor>log 2 \<bar>x\<bar>\<rfloor> / 2 powr real t"
    by (simp add: fl_ulp_def powr_diff)
  also have "\<dots> \<le> \<bar>x\<bar> / 2 powr real t"
    using powr_floor_log(1) [OF a] by (simp add: divide_right_mono)
  also have "\<dots> = \<bar>x\<bar> / 2 ^ t" by (simp add: two_powr_nat)
  finally show ?thesis
    using powr_gt_zero [of 2 "of_int emin - real t"] by linarith
next
  case False
  then have "fl_exponent emin x = emin" by (simp add: fl_exponent_def)
  then have "fl_ulp t emin x = 2 powr (of_int emin - real t)" by (simp add: fl_ulp_def)
  then show ?thesis by simp
qed

lemma fl_round_error:
  "\<bar>fl_round t emin x - x\<bar> \<le> \<bar>x\<bar> / 2 ^ (t + 1) + 2 powr (of_int emin - real t) / 2"
proof (cases "x = 0")
  case True
  then show ?thesis by simp
next
  case False
  have "\<bar>fl_round t emin x - x\<bar> \<le> fl_ulp t emin x / 2"
    by (rule fl_round_error_ulp)
  also have "\<dots> \<le> (\<bar>x\<bar> / 2 ^ t + 2 powr (of_int emin - real t)) / 2"
    using fl_ulp_le [OF False, of t emin] by simp
  also have "\<dots> = \<bar>x\<bar> / 2 ^ (t + 1) + 2 powr (of_int emin - real t) / 2"
    by (simp add: add_divide_distrib)
  finally show ?thesis .
qed

text \<open>The two formats of the programs.\<close>

lemma f32_zero [simp]: "f32 0 = 0"
  by (simp add: f32_def)

lemma f32_minus: "f32 (- x) = - f32 x"
  by (simp add: f32_def fl_round_minus)

lemma f32_nonneg: "0 \<le> x \<Longrightarrow> 0 \<le> f32 x"
  by (simp add: f32_def fl_round_nonneg)

lemma f32_mono: "x \<le> y \<Longrightarrow> f32 x \<le> f32 y"
  by (simp add: f32_def fl_round_mono)

lemma f32_small:
  fixes n :: nat
  assumes "n \<le> 126" and "1 \<le> x * 2 ^ n" and "x * 2 ^ n < 2"
  shows "f32 x = of_int (round_even (x * 2 ^ (n + 23))) / 2 ^ (n + 23)"
  unfolding f32_def using _ assms(2,3) by (rule fl_round_small) (use assms(1) in simp)

lemma f32_large:
  fixes n :: nat
  assumes "n \<le> 23" and "2 ^ n \<le> x" and "x < 2 ^ (n + 1)"
  shows "f32 x = of_int (round_even (x * 2 ^ (23 - n))) / 2 ^ (23 - n)"
  unfolding f32_def using _ assms by (rule fl_round_large) simp

lemma f64_small:
  fixes n :: nat
  assumes "n \<le> 1022" and "1 \<le> x * 2 ^ n" and "x * 2 ^ n < 2"
  shows "f64 x = of_int (round_even (x * 2 ^ (n + 52))) / 2 ^ (n + 52)"
  unfolding f64_def using _ assms(2,3) by (rule fl_round_small) (use assms(1) in simp)

lemma f32_error: "\<bar>f32 x - x\<bar> \<le> \<bar>x\<bar> / 2 ^ 24 + 1 / 2 ^ 150"
proof -
  have "(2::real) powr (of_int (- 126) - real 23) = 2 powr (- real 149)" by simp
  also have "\<dots> = 1 / 2 ^ 149" by (rule two_powr_minus_nat)
  finally have "(2::real) powr (of_int (- 126) - real 23) / 2 = 1 / 2 ^ 150" by simp
  then show ?thesis
    using fl_round_error [of 23 "- 126" x] by (simp add: f32_def)
qed

lemma f32_half [simp]: "f32 (1 / 2) = 1 / 2"
  by (simp add: f32_small [where n = 1] round_even_def)

lemma f32_5 [simp]: "f32 5 = 5"
  by (simp add: f32_large [where n = 2] round_even_def)

lemma f32_1 [simp]: "f32 1 = 1"
  by (simp add: f32_large [where n = 0] round_even_def)

subsection \<open>Animation controller\<close>

text \<open>
  C1. For every key and every deltaTime at least 0: when pressAnim is in the interval
  from 0 to 0.5 before updateKeyAnimation, it is in that interval after it.
\<close>

theorem updateKeyAnimation_range:
  assumes "0 \<le> deltaTime" and "0 \<le> pressAnim key" and "pressAnim key \<le> 0.5"
  shows "0 \<le> pressAnim (updateKeyAnimation key deltaTime)
       \<and> pressAnim (updateKeyAnimation key deltaTime) \<le> 0.5"
  using assms
  by (auto simp: updateKeyAnimation_def PRESS_FEEDBACK_DURATION_def Let_def)

theorem updateKeyAnimation_range_witness:
  "(0::real) \<le> 3 / 100
   \<and> 0 \<le> pressAnim \<lparr>label = ''A'', pos = Vec2 45 220, ksize = Vec2 60 60,
                      pressAnim = 9 / 20, isPressed = True\<rparr>
   \<and> pressAnim \<lparr>label = ''A'', pos = Vec2 45 220, ksize = Vec2 60 60,
                  pressAnim = 9 / 20, isPressed = True\<rparr> \<le> 0.5
   \<and> 0 \<le> pressAnim (updateKeyAnimation
              \<lparr>label = ''A'', pos = Vec2 45 220, ksize = Vec2 60 60,
               pressAnim = 9 / 20, isPressed = True\<rparr> (3 / 100))
   \<and> pressAnim (updateKeyAnimation
              \<lparr>label = ''A'', pos = Vec2 45 220, ksize = Vec2 60 60,
               pressAnim = 9 / 20, isPressed = True\<rparr> (3 / 100)) \<le> 0.5"
  using updateKeyAnimation_range
    [of "3 / 100" "\<lparr>label = ''A'', pos = Vec2 45 220, ksize = Vec2 60 60,
                    pressAnim = 9 / 20, isPressed = True\<rparr>"]
  by simp

text \<open>
  The binary32 reading.  The rate \<^verbatim>\<open>animSpeed\<close> is a constant of the program; the range
  property holds for it as it does for the exact reading.
\<close>

lemma duration_f32: "f32 PRESS_FEEDBACK_DURATION_f64 = 5033165 / 33554432"
proof -
  have d: "PRESS_FEEDBACK_DURATION_f64 = 5404319552844595 / 36028797018963968"
    unfolding PRESS_FEEDBACK_DURATION_f64_def
    by (simp add: f64_small [where n = 3] round_even_def Let_def)
  show ?thesis
    unfolding d by (simp add: f32_small [where n = 3] round_even_def Let_def)
qed

lemma animSpeed_f32: "f32 (0.5 / f32 PRESS_FEEDBACK_DURATION_f64) = 13981013 / 4194304"
  unfolding duration_f32 by (simp add: f32_large [where n = 1] round_even_def Let_def)

lemma updateKeyAnimation_f32_pressAnim:
  "pressAnim (updateKeyAnimation_f32 key deltaTime) =
     (let target = (if isPressed key then 1 / 2 else 0);
          step = f32 (13981013 / 4194304 * deltaTime);
          p = pressAnim key
      in if p < target then (if target < f32 (p + step) then target else f32 (p + step))
         else if target < p then (if f32 (p - step) < target then target else f32 (p - step))
         else p)"
  unfolding updateKeyAnimation_f32_def animSpeed_f32 by (simp add: Let_def)

lemma updateKeyAnimation_f32_frame:
  "updateKeyAnimation_f32 key deltaTime
     = key\<lparr>pressAnim := pressAnim (updateKeyAnimation_f32 key deltaTime)\<rparr>"
  by (simp add: updateKeyAnimation_f32_def Let_def)

lemma step_f32_nonneg: "0 \<le> deltaTime \<Longrightarrow> 0 \<le> f32 (13981013 / 4194304 * deltaTime)"
  by (rule f32_nonneg) simp

lemma f32_add_ge: "f32 p = p \<Longrightarrow> 0 \<le> d \<Longrightarrow> p \<le> f32 (p + d)"
  using f32_mono [of p "p + d"] by simp

lemma f32_sub_le: "f32 p = p \<Longrightarrow> 0 \<le> d \<Longrightarrow> f32 (p - d) \<le> p"
  using f32_mono [of "p - d" p] by simp

lemma step_f32_error:
  assumes "0 \<le> deltaTime"
  shows "\<bar>f32 (13981013 / 4194304 * deltaTime) - (0.5 / PRESS_FEEDBACK_DURATION) * deltaTime\<bar>
         \<le> 3 * deltaTime / 10 ^ 7 + 1 / 2 ^ 150"
proof -
  let ?r = "13981013 / 4194304 :: real"
  have "\<bar>f32 (?r * deltaTime) - ?r * deltaTime\<bar> \<le> \<bar>?r * deltaTime\<bar> / 2 ^ 24 + 1 / 2 ^ 150"
    by (rule f32_error)
  moreover have "\<bar>?r * deltaTime\<bar> = ?r * deltaTime" using assms by simp
  ultimately have a: "\<bar>f32 (?r * deltaTime) - ?r * deltaTime\<bar>
      \<le> ?r * deltaTime / 2 ^ 24 + 1 / 2 ^ 150" by simp
  have b: "(0.5 / PRESS_FEEDBACK_DURATION) * deltaTime = 10 / 3 * deltaTime"
    by (simp add: PRESS_FEEDBACK_DURATION_def)
  show ?thesis unfolding b using a assms by (simp add: abs_le_iff)
qed

lemma updateKeyAnimation_f32_range:
  assumes "0 \<le> deltaTime" and "f32 (pressAnim key) = pressAnim key"
    and "0 \<le> pressAnim key" and "pressAnim key \<le> 0.5"
  shows "0 \<le> pressAnim (updateKeyAnimation_f32 key deltaTime)
       \<and> pressAnim (updateKeyAnimation_f32 key deltaTime) \<le> 0.5"
  using assms step_f32_nonneg [OF assms(1)]
    f32_add_ge [OF assms(2) step_f32_nonneg [OF assms(1)]]
    f32_sub_le [OF assms(2) step_f32_nonneg [OF assms(1)]]
  by (auto simp: updateKeyAnimation_f32_pressAnim Let_def)

text \<open>
  C2. In binary32 the step is not exactly (0.5 / PRESS_FEEDBACK_DURATION) * deltaTime.
  For every key whose pressAnim is a binary32 number and every deltaTime at least 0,
  with target 0.5 when the key is pressed and 0 otherwise: the rate animSpeed is the
  binary32 number 13981013 / 4194304, not 10 / 3; the step is animSpeed * deltaTime
  rounded to binary32, which lies within 3 * deltaTime / 10^7 + 2^-150 of
  (0.5 / PRESS_FEEDBACK_DURATION) * deltaTime; below the target pressAnim becomes the
  rounded sum pressAnim + step, above it the rounded difference pressAnim - step, and the
  target when that rounded value lies beyond the target; pressAnim never moves away from
  the target and never past it; at the target, and when deltaTime is 0, the key is
  unchanged.  No other field changes.
\<close>

theorem updateKeyAnimation_f32_step:
  assumes "0 \<le> deltaTime" and "f32 (pressAnim key) = pressAnim key"
  shows "(let animSpeed = f32 (0.5 / f32 PRESS_FEEDBACK_DURATION_f64);
              target = (if isPressed key then 0.5 else 0);
              step = f32 (animSpeed * deltaTime);
              p = pressAnim key;
              key' = updateKeyAnimation_f32 key deltaTime
          in animSpeed = 13981013 / 4194304
           \<and> \<bar>step - (0.5 / PRESS_FEEDBACK_DURATION) * deltaTime\<bar>
               \<le> 3 * deltaTime / 10 ^ 7 + 1 / 2 ^ 150
           \<and> (p < target \<and> f32 (p + step) \<le> target \<longrightarrow> pressAnim key' = f32 (p + step))
           \<and> (p < target \<and> target < f32 (p + step) \<longrightarrow> pressAnim key' = target)
           \<and> (target < p \<and> target \<le> f32 (p - step) \<longrightarrow> pressAnim key' = f32 (p - step))
           \<and> (target < p \<and> f32 (p - step) < target \<longrightarrow> pressAnim key' = target)
           \<and> (p \<le> target \<longrightarrow> p \<le> pressAnim key' \<and> pressAnim key' \<le> target)
           \<and> (target \<le> p \<longrightarrow> target \<le> pressAnim key' \<and> pressAnim key' \<le> p)
           \<and> (p = target \<longrightarrow> key' = key)
           \<and> (deltaTime = 0 \<longrightarrow> key' = key)
           \<and> key' = key\<lparr>pressAnim := pressAnim key'\<rparr>)"
proof -
  define target :: real where "target = (if isPressed key then 0.5 else 0)"
  define step where "step = f32 (13981013 / 4194304 * deltaTime)"
  define p where "p = pressAnim key"
  define key' where "key' = updateKeyAnimation_f32 key deltaTime"
  have new: "pressAnim key' =
      (if p < target then (if target < f32 (p + step) then target else f32 (p + step))
       else if target < p then (if f32 (p - step) < target then target else f32 (p - step))
       else p)"
    unfolding key'_def target_def step_def p_def
    by (simp add: updateKeyAnimation_f32_pressAnim Let_def)
  have s: "0 \<le> step" unfolding step_def using assms(1) by (rule step_f32_nonneg)
  have up: "p \<le> f32 (p + step)"
    unfolding p_def using assms(2) s by (rule f32_add_ge)
  have down: "f32 (p - step) \<le> p"
    unfolding p_def using assms(2) s by (rule f32_sub_le)
  have rate: "(13981013 / 4194304 :: real) = 13981013 / 4194304" ..
  have err: "\<bar>step - (0.5 / PRESS_FEEDBACK_DURATION) * deltaTime\<bar>
               \<le> 3 * deltaTime / 10 ^ 7 + 1 / 2 ^ 150"
    unfolding step_def using assms(1) by (rule step_f32_error)
  have frame: "key' = key\<lparr>pressAnim := pressAnim key'\<rparr>"
    unfolding key'_def by (rule updateKeyAnimation_f32_frame)
  have same: "key' = key" if "pressAnim key' = p"
    using frame that by (simp add: p_def)
  have "step = 0" if "deltaTime = 0" using that by (simp add: step_def)
  then have zero: "deltaTime = 0 \<longrightarrow> key' = key"
    using new assms(2) by (auto simp: p_def [symmetric] intro!: same)
  have attarget: "p = target \<longrightarrow> key' = key"
    using new by (auto intro!: same)
  have m1: "p < target \<and> f32 (p + step) \<le> target \<longrightarrow> pressAnim key' = f32 (p + step)"
    using new by auto
  have m2: "p < target \<and> target < f32 (p + step) \<longrightarrow> pressAnim key' = target"
    using new by auto
  have m3: "target < p \<and> target \<le> f32 (p - step) \<longrightarrow> pressAnim key' = f32 (p - step)"
    using new by auto
  have m4: "target < p \<and> f32 (p - step) < target \<longrightarrow> pressAnim key' = target"
    using new by auto
  have b1: "p \<le> target \<longrightarrow> p \<le> pressAnim key' \<and> pressAnim key' \<le> target"
    using new up by auto
  have b2: "target \<le> p \<longrightarrow> target \<le> pressAnim key' \<and> pressAnim key' \<le> p"
    using new down by auto
  show ?thesis
    unfolding Let_def animSpeed_f32 target_def [symmetric] step_def [symmetric]
      p_def [symmetric] key'_def [symmetric]
    using rate err m1 m2 m3 m4 b1 b2 attarget zero frame by blast
qed

text \<open>
  A key at 0.25: pressed and a frame of 1/64 s, pressed and a frame of 1/8 s (which
  reaches the target), released and a frame of 1/64 s, released and a frame of 1/8 s
  (which reaches the target), and a frame of no duration; and a pressed key at 0.5.
\<close>

theorem updateKeyAnimation_f32_step_witness:
  "(0::real) \<le> 1 / 64 \<and> (0::real) \<le> 1 / 8 \<and> f32 (1 / 4) = 1 / 4
   \<and> pressAnim (updateKeyAnimation_f32
        \<lparr>label = ''A'', pos = Vec2 45 220, ksize = Vec2 60 60,
         pressAnim = 1 / 4, isPressed = True\<rparr> (1 / 64)) = 10136235 / 33554432
   \<and> pressAnim (updateKeyAnimation_f32
        \<lparr>label = ''A'', pos = Vec2 45 220, ksize = Vec2 60 60,
         pressAnim = 1 / 4, isPressed = True\<rparr> (1 / 8)) = 1 / 2
   \<and> pressAnim (updateKeyAnimation_f32
        \<lparr>label = ''A'', pos = Vec2 45 220, ksize = Vec2 60 60,
         pressAnim = 1 / 4, isPressed = False\<rparr> (1 / 64)) = 13281963 / 67108864
   \<and> pressAnim (updateKeyAnimation_f32
        \<lparr>label = ''A'', pos = Vec2 45 220, ksize = Vec2 60 60,
         pressAnim = 1 / 4, isPressed = False\<rparr> (1 / 8)) = 0
   \<and> updateKeyAnimation_f32
        \<lparr>label = ''A'', pos = Vec2 45 220, ksize = Vec2 60 60,
         pressAnim = 1 / 2, isPressed = True\<rparr> (1 / 64)
       = \<lparr>label = ''A'', pos = Vec2 45 220, ksize = Vec2 60 60,
         pressAnim = 1 / 2, isPressed = True\<rparr>
   \<and> updateKeyAnimation_f32
        \<lparr>label = ''A'', pos = Vec2 45 220, ksize = Vec2 60 60,
         pressAnim = 1 / 4, isPressed = True\<rparr> 0
       = \<lparr>label = ''A'', pos = Vec2 45 220, ksize = Vec2 60 60,
         pressAnim = 1 / 4, isPressed = True\<rparr>"
proof -
  have p: "f32 (1 / 4) = 1 / 4"
    by (simp add: f32_small [where n = 2] round_even_def Let_def)
  have s1: "f32 (13981013 / 268435456) = 13981013 / 268435456"
    by (simp add: f32_small [where n = 5] round_even_def Let_def)
  have s2: "f32 (13981013 / 33554432) = 13981013 / 33554432"
    by (simp add: f32_small [where n = 2] round_even_def Let_def)
  have u1: "f32 (81089877 / 268435456) = 10136235 / 33554432"
    by (simp add: f32_small [where n = 2] round_even_def Let_def)
  have u2: "f32 (22369621 / 33554432) = 5592405 / 8388608"
    by (simp add: f32_small [where n = 1] round_even_def Let_def)
  have d1: "f32 (53127851 / 268435456) = 13281963 / 67108864"
    by (simp add: f32_small [where n = 3] round_even_def Let_def)
  have d2: "f32 (5592405 / 33554432) = 5592405 / 33554432"
    by (simp add: f32_small [where n = 3] round_even_def Let_def)
  have r: "f32 (16777216 / 5033165) = 13981013 / 4194304"
    by (simp add: f32_large [where n = 1] round_even_def Let_def)
  show ?thesis
    using updateKeyAnimation_f32_step
        [of "1 / 64" "\<lparr>label = ''A'', pos = Vec2 45 220, ksize = Vec2 60 60,
         pressAnim = 1 / 4, isPressed = True\<rparr>"]
      updateKeyAnimation_f32_step
        [of "1 / 8" "\<lparr>label = ''A'', pos = Vec2 45 220, ksize = Vec2 60 60,
         pressAnim = 1 / 4, isPressed = True\<rparr>"]
      updateKeyAnimation_f32_step
        [of "1 / 64" "\<lparr>label = ''A'', pos = Vec2 45 220, ksize = Vec2 60 60,
         pressAnim = 1 / 4, isPressed = False\<rparr>"]
      updateKeyAnimation_f32_step
        [of "1 / 8" "\<lparr>label = ''A'', pos = Vec2 45 220, ksize = Vec2 60 60,
         pressAnim = 1 / 4, isPressed = False\<rparr>"]
      updateKeyAnimation_f32_step
        [of "1 / 64" "\<lparr>label = ''A'', pos = Vec2 45 220, ksize = Vec2 60 60,
         pressAnim = 1 / 2, isPressed = True\<rparr>"]
      updateKeyAnimation_f32_step
        [of 0 "\<lparr>label = ''A'', pos = Vec2 45 220, ksize = Vec2 60 60,
         pressAnim = 1 / 4, isPressed = True\<rparr>"]
    by (simp add: Let_def duration_f32 f32_minus r p s1 s2 u1 u2 d1 d2)
qed

text \<open>
  A pressed key at 0.25 and a frame of 2^-40 s: the exact sum lies strictly between 0.25
  and 0.5, the rounded sum is 0.25 and pressAnim does not move.  A pressed key at 0.45f
  and a frame of 0.015f s: the exact sum is 268435449 / 536870912, below 0.5, and
  pressAnim becomes 0.5.  A pressed key at 0 and the same frame: the exact step is
  26843545 / 536870912 and pressAnim becomes 3355443 / 67108864.
\<close>

theorem updateKeyAnimation_exact_step_counterexample:
  "(let key = \<lparr>label = ''A'', pos = Vec2 45 220, ksize = Vec2 60 60,
         pressAnim = 1 / 4, isPressed = True\<rparr>;
        deltaTime = 1 / 2 ^ 40
    in f32 (pressAnim key) = pressAnim key \<and> f32 deltaTime = deltaTime \<and> 0 < deltaTime
     \<and> pressAnim key + (0.5 / PRESS_FEEDBACK_DURATION) * deltaTime < 0.5
     \<and> pressAnim (updateKeyAnimation_f32 key deltaTime) = pressAnim key)
   \<and> (let key = \<lparr>label = ''A'', pos = Vec2 45 220, ksize = Vec2 60 60,
         pressAnim = f32 0.45, isPressed = True\<rparr>;
            deltaTime = f32 0.015
       in pressAnim key = 7549747 / 16777216 \<and> deltaTime = 16106127 / 1073741824
        \<and> pressAnim key + (0.5 / PRESS_FEEDBACK_DURATION) * deltaTime = 268435449 / 536870912
        \<and> pressAnim (updateKeyAnimation_f32 key deltaTime) = 1 / 2)
   \<and> (let key = \<lparr>label = ''A'', pos = Vec2 45 220, ksize = Vec2 60 60,
         pressAnim = 0, isPressed = True\<rparr>;
            deltaTime = f32 0.015
       in pressAnim key + (0.5 / PRESS_FEEDBACK_DURATION) * deltaTime = 26843545 / 536870912
        \<and> pressAnim (updateKeyAnimation_f32 key deltaTime) = 3355443 / 67108864)"
proof -
  have p: "f32 (1 / 4) = 1 / 4"
    by (simp add: f32_small [where n = 2] round_even_def Let_def)
  have t: "f32 (1 / 1099511627776) = 1 / 1099511627776"
    by (simp add: f32_small [where n = 40] round_even_def Let_def)
  have s: "f32 (13981013 / 4611686018427387904) = 13981013 / 4611686018427387904"
    by (simp add: f32_small [where n = 39] round_even_def Let_def)
  have u: "f32 (1152921504620827989 / 4611686018427387904) = 1 / 4"
    by (simp add: f32_small [where n = 2] round_even_def Let_def)
  have p45: "f32 (9 / 20) = 7549747 / 16777216"
    by (simp add: f32_small [where n = 2] round_even_def Let_def)
  have d15: "f32 (3 / 200) = 16106127 / 1073741824"
    by (simp add: f32_small [where n = 7] round_even_def Let_def)
  have s15: "f32 (225179970966651 / 4503599627370496) = 3355443 / 67108864"
    by (simp add: f32_small [where n = 5] round_even_def Let_def)
  have u45: "f32 (33554431 / 67108864) = 1 / 2"
    by (simp add: f32_small [where n = 2] round_even_def Let_def)
  have u0: "f32 (3355443 / 67108864) = 3355443 / 67108864"
    by (simp add: f32_small [where n = 5] round_even_def Let_def)
  show ?thesis
    by (simp add: Let_def updateKeyAnimation_f32_pressAnim PRESS_FEEDBACK_DURATION_def
        p t s u p45 d15 s15 u45 u0)
qed

subsection \<open>Geometry builder\<close>

lemma f32_quarter: "f32 (1 / 4) = 1 / 4"
  by (simp add: f32_small [where n = 2] round_even_def)

lemma f32_error_nonneg: "0 \<le> x \<Longrightarrow> \<bar>f32 x - x\<bar> \<le> x / 2 ^ 24 + 1 / 2 ^ 150"
  using f32_error [of x] by simp

lemma shift_f32:
  assumes "0 \<le> p" and "p \<le> 1 / 2"
  shows "0 \<le> f32 (10 * p)" "f32 (10 * p) \<le> 5"
    "\<bar>f32 (10 * p) - 10 * p\<bar> \<le> 10 * p / 2 ^ 24 + 1 / 2 ^ 150"
proof -
  show "0 \<le> f32 (10 * p)" using assms(1) by (intro f32_nonneg) simp
  show "f32 (10 * p) \<le> 5" using f32_mono [of "10 * p" 5] assms(2) by simp
  show "\<bar>f32 (10 * p) - 10 * p\<bar> \<le> 10 * p / 2 ^ 24 + 1 / 2 ^ 150"
    using assms(1) by (intro f32_error_nonneg) simp
qed

lemma front_f32:
  assumes "0 \<le> p" and "p \<le> 1 / 2"
  shows "\<bar>f32 (b - f32 (10 * p)) - (b - 10 * p)\<bar> \<le> (\<bar>b\<bar> + 10) / 2 ^ 24 + 1 / 2 ^ 149"
proof -
  let ?s = "f32 (10 * p)"
  note s = shift_f32 [OF assms]
  have 1: "\<bar>f32 (b - ?s) - (b - ?s)\<bar> \<le> \<bar>b - ?s\<bar> / 2 ^ 24 + 1 / 2 ^ 150"
    by (rule f32_error)
  have "\<bar>b - ?s\<bar> \<le> \<bar>b\<bar> + 5" using s(1,2) by linarith
  then have 2: "\<bar>b - ?s\<bar> / 2 ^ 24 \<le> (\<bar>b\<bar> + 5) / 2 ^ 24"
    by (simp add: divide_right_mono)
  have "10 * p / 2 ^ 24 \<le> 5 / 2 ^ 24" using assms(2) by simp
  then have 3: "\<bar>?s - 10 * p\<bar> \<le> 5 / 2 ^ 24 + 1 / 2 ^ 150" using s(3) by linarith
  have "\<bar>f32 (b - ?s) - (b - 10 * p)\<bar> \<le> \<bar>f32 (b - ?s) - (b - ?s)\<bar> + \<bar>?s - 10 * p\<bar>"
    by linarith
  also have "\<dots> \<le> (\<bar>b\<bar> + 5) / 2 ^ 24 + 1 / 2 ^ 150 + (5 / 2 ^ 24 + 1 / 2 ^ 150)"
    using 1 2 3 by linarith
  also have "\<dots> = (\<bar>b\<bar> + 10) / 2 ^ 24 + 1 / 2 ^ 149"
    by (simp add: add_divide_distrib)
  finally show ?thesis .
qed

lemma pressOffsetZ_f32:
  assumes "0 \<le> p" and "0 \<le> depth"
  shows "0 \<le> f32 (depth * p)"
    "\<bar>f32 (depth * p) - depth * p\<bar> \<le> depth * p / 2 ^ 24 + 1 / 2 ^ 150"
proof -
  have n: "0 \<le> depth * p" using assms by simp
  show "0 \<le> f32 (depth * p)" using n by (rule f32_nonneg)
  show "\<bar>f32 (depth * p) - depth * p\<bar> \<le> depth * p / 2 ^ 24 + 1 / 2 ^ 150"
    using n by (rule f32_error_nonneg)
qed

lemma newDepth_f32:
  assumes "0 \<le> p" and "p \<le> 1 / 2" and "0 \<le> depth"
  shows "\<bar>f32 (depth * f32 (1 - f32 (0.5 * p))) - depth * (1 - 0.5 * p)\<bar>
         \<le> depth / 2 ^ 22 + 1 / 2 ^ 150"
proof -
  define a where "a = f32 (0.5 * p)"
  define b where "b = f32 (1 - a)"
  define c where "c = f32 (depth * b)"
  have a0: "0 \<le> a" unfolding a_def using assms(1) by (intro f32_nonneg) simp
  have a1: "a \<le> 1 / 4"
    unfolding a_def using f32_mono [of "0.5 * p" "1 / 4"] assms(2) by (simp add: f32_quarter)
  have "\<bar>a - 0.5 * p\<bar> \<le> 0.5 * p / 2 ^ 24 + 1 / 2 ^ 150"
    unfolding a_def using assms(1) by (intro f32_error_nonneg) simp
  moreover have "0.5 * p / 2 ^ 24 \<le> (1 / 4) / (2 ^ 24 :: real)"
    using assms(2) by simp
  ultimately have ae: "\<bar>a - 0.5 * p\<bar> \<le> (1 / 4) / 2 ^ 24 + 1 / 2 ^ 150"
    by linarith
  have b0: "0 \<le> b" unfolding b_def using a1 by (intro f32_nonneg) simp
  have b1: "b \<le> 1" unfolding b_def using f32_mono [of "1 - a" 1] a0 by simp
  have "\<bar>b - (1 - a)\<bar> \<le> (1 - a) / 2 ^ 24 + 1 / 2 ^ 150"
    unfolding b_def using a1 by (intro f32_error_nonneg) simp
  moreover have "(1 - a) / 2 ^ 24 \<le> 1 / (2 ^ 24 :: real)"
    using a0 by (simp add: divide_right_mono)
  ultimately have be: "\<bar>b - (1 - a)\<bar> \<le> 1 / 2 ^ 24 + 1 / 2 ^ 150"
    by linarith
  have "\<bar>b - (1 - 0.5 * p)\<bar> \<le> \<bar>b - (1 - a)\<bar> + \<bar>a - 0.5 * p\<bar>" by linarith
  moreover have "1 / 2 ^ 150 + 1 / 2 ^ 150 \<le> (1 / 2) / (2 ^ 24 :: real)"
    by simp
  ultimately have bp: "\<bar>b - (1 - 0.5 * p)\<bar> \<le> (7 / 4) / 2 ^ 24"
    using ae be by linarith
  have db: "0 \<le> depth * b" using assms(3) b0 by simp
  have "depth * b \<le> depth * 1" using b1 assms(3) by (rule mult_left_mono)
  then have db1: "depth * b / 2 ^ 24 \<le> depth / 2 ^ 24" by (simp add: divide_right_mono)
  have "\<bar>c - depth * b\<bar> \<le> depth * b / 2 ^ 24 + 1 / 2 ^ 150"
    unfolding c_def using db by (rule f32_error_nonneg)
  then have ce: "\<bar>c - depth * b\<bar> \<le> depth / 2 ^ 24 + 1 / 2 ^ 150"
    using db1 by linarith
  have "depth * \<bar>b - (1 - 0.5 * p)\<bar> \<le> depth * ((7 / 4) / 2 ^ 24)"
    using bp assms(3) by (rule mult_left_mono)
  moreover have "\<bar>depth * (b - (1 - 0.5 * p))\<bar> = depth * \<bar>b - (1 - 0.5 * p)\<bar>"
    using assms(3) by (simp add: abs_mult)
  ultimately have de: "\<bar>depth * (b - (1 - 0.5 * p))\<bar> \<le> depth * ((7 / 4) / 2 ^ 24)"
    by simp
  have "c - depth * (1 - 0.5 * p) = (c - depth * b) + depth * (b - (1 - 0.5 * p))"
    by (simp add: algebra_simps)
  then have "\<bar>c - depth * (1 - 0.5 * p)\<bar>
      \<le> \<bar>c - depth * b\<bar> + \<bar>depth * (b - (1 - 0.5 * p))\<bar>"
    by linarith
  also have "\<dots> \<le> depth / 2 ^ 24 + 1 / 2 ^ 150 + depth * ((7 / 4) / 2 ^ 24)"
    using ce de by linarith
  also have "\<dots> \<le> depth / 2 ^ 22 + 1 / 2 ^ 150"
    using assms(3) by (simp add: field_simps)
  finally show ?thesis unfolding c_def b_def a_def .
qed

text \<open>
  C3. In binary32 the front face is not shifted by exactly 10 * p.  For every rectangle
  (x, y, w, h), every depth at least 0 (the program's KEY_DEPTH: 18 on the full-size
  board, 20 in the single-key demo) and every pressAnim p from 0 to 0.5, drawKeycap3D
  submits five quads: front, top, right, bottom, left.  With shift = 10 * p,
  pressOffsetZ = depth * p and compressedDepth = depth * (1 - 0.5 * p), each operation
  rounded to binary32: the front face is the rectangle with its left and top edges at
  x - shift and y - shift (rounded), its right and bottom edges w and h further (rounded),
  at z = - pressOffsetZ; each side face joins an edge of that front face to the same edge
  moved by compressedDepth to the left and upwards (rounded), at
  z = - (pressOffsetZ + compressedDepth) (rounded).  The shift lies between 0 and 5 and
  within 10 * p / 2^24 + 2^-150 of 10 * p; the left and top edges of the front face lie
  within (|x| + 10) / 2^24 + 2^-149 of x - 10 * p and (|y| + 10) / 2^24 + 2^-149 of
  y - 10 * p; pressOffsetZ lies within depth * p / 2^24 + 2^-150 of depth * p and
  compressedDepth within depth / 2^22 + 2^-150 of depth * (1 - 0.5 * p).
\<close>

theorem drawKeycap3D_geometry:
  assumes "0 \<le> pressAnim key" and "pressAnim key \<le> 0.5" and "0 \<le> depth"
  shows "(let p = pressAnim key;
        shift = f32 (10 * p);
        pressOffsetZ = f32 (depth * p);
        compressedDepth = f32 (depth * f32 (1 - f32 (0.5 * p)));
        x = f32 (vx (pos key) - shift); y = f32 (vy (pos key) - shift);
        xw = f32 (x + vx (ksize key)); yh = f32 (y + vy (ksize key));
        back = (\<lambda>v. Vec3 (f32 (px v - compressedDepth)) (f32 (py v - compressedDepth))
                        (- f32 (pressOffsetZ + compressedDepth)));
        tl = Vec3 x y (- pressOffsetZ); tr = Vec3 xw y (- pressOffsetZ);
        br = Vec3 xw yh (- pressOffsetZ); bl = Vec3 x yh (- pressOffsetZ)
    in map (\<lambda>q. [v0 q, v1 q, v2 q, v3 q]) (drawKeycap3D depth key) =
         [[tl, tr, br, bl],
          [tl, tr, back tr, back tl],
          [tr, br, back br, back tr],
          [bl, br, back br, back bl],
          [tl, bl, back bl, back tl]]
     \<and> 0 \<le> shift \<and> shift \<le> 5
     \<and> \<bar>shift - 10 * p\<bar> \<le> 10 * p / 2 ^ 24 + 1 / 2 ^ 150
     \<and> \<bar>x - (vx (pos key) - 10 * p)\<bar> \<le> (\<bar>vx (pos key)\<bar> + 10) / 2 ^ 24 + 1 / 2 ^ 149
     \<and> \<bar>y - (vy (pos key) - 10 * p)\<bar> \<le> (\<bar>vy (pos key)\<bar> + 10) / 2 ^ 24 + 1 / 2 ^ 149
     \<and> 0 \<le> pressOffsetZ
     \<and> \<bar>pressOffsetZ - depth * p\<bar> \<le> depth * p / 2 ^ 24 + 1 / 2 ^ 150
     \<and> \<bar>compressedDepth - depth * (1 - 0.5 * p)\<bar> \<le> depth / 2 ^ 22 + 1 / 2 ^ 150)"
proof -
  have p: "0 \<le> pressAnim key" "pressAnim key \<le> 1 / 2" using assms by simp_all
  have faces: "map (\<lambda>q. [v0 q, v1 q, v2 q, v3 q]) (drawKeycap3D depth key) =
      (let p = pressAnim key;
        shift = f32 (10 * p);
        pressOffsetZ = f32 (depth * p);
        compressedDepth = f32 (depth * f32 (1 - f32 (0.5 * p)));
        x = f32 (vx (pos key) - shift); y = f32 (vy (pos key) - shift);
        xw = f32 (x + vx (ksize key)); yh = f32 (y + vy (ksize key));
        back = (\<lambda>v. Vec3 (f32 (px v - compressedDepth)) (f32 (py v - compressedDepth))
                        (- f32 (pressOffsetZ + compressedDepth)));
        tl = Vec3 x y (- pressOffsetZ); tr = Vec3 xw y (- pressOffsetZ);
        br = Vec3 xw yh (- pressOffsetZ); bl = Vec3 x yh (- pressOffsetZ)
       in [[tl, tr, br, bl],
          [tl, tr, back tr, back tl],
          [tr, br, back br, back tr],
          [bl, br, back br, back bl],
          [tl, bl, back bl, back tl]])"
    by (simp add: drawKeycap3D_def Let_def)
  show ?thesis
    using faces shift_f32 [OF p] front_f32 [OF p, of "vx (pos key)"]
      front_f32 [OF p, of "vy (pos key)"] pressOffsetZ_f32 [OF p(1) assms(3)]
      newDepth_f32 [OF p assms(3)]
    unfolding Let_def by blast
qed

text \<open>
  The Q key of the board of a 1920 by 1080 monitor at pressAnim 0.25, where every
  operation is exact: the front face has its corner at (483.5, 474.5, -4.5) and the side
  faces reach back by 15.75.
\<close>

theorem drawKeycap3D_geometry_witness:
  "(let key = \<lparr>label = ''Q'', pos = Vec2 486 477, ksize = Vec2 60 60,
         pressAnim = 1 / 4, isPressed = True\<rparr>
    in 0 \<le> pressAnim key \<and> pressAnim key \<le> 0.5 \<and> 0 \<le> KEY_DEPTH
     \<and> map (\<lambda>q. [v0 q, v1 q, v2 q, v3 q]) (drawKeycap3D KEY_DEPTH key) =
         [[Vec3 (967 / 2) (949 / 2) (- 9 / 2), Vec3 (1087 / 2) (949 / 2) (- 9 / 2),
           Vec3 (1087 / 2) (1069 / 2) (- 9 / 2), Vec3 (967 / 2) (1069 / 2) (- 9 / 2)],
          [Vec3 (967 / 2) (949 / 2) (- 9 / 2), Vec3 (1087 / 2) (949 / 2) (- 9 / 2),
           Vec3 (2111 / 4) (1835 / 4) (- 81 / 4), Vec3 (1871 / 4) (1835 / 4) (- 81 / 4)],
          [Vec3 (1087 / 2) (949 / 2) (- 9 / 2), Vec3 (1087 / 2) (1069 / 2) (- 9 / 2),
           Vec3 (2111 / 4) (2075 / 4) (- 81 / 4), Vec3 (2111 / 4) (1835 / 4) (- 81 / 4)],
          [Vec3 (967 / 2) (1069 / 2) (- 9 / 2), Vec3 (1087 / 2) (1069 / 2) (- 9 / 2),
           Vec3 (2111 / 4) (2075 / 4) (- 81 / 4), Vec3 (1871 / 4) (2075 / 4) (- 81 / 4)],
          [Vec3 (967 / 2) (949 / 2) (- 9 / 2), Vec3 (967 / 2) (1069 / 2) (- 9 / 2),
           Vec3 (1871 / 4) (2075 / 4) (- 81 / 4), Vec3 (1871 / 4) (1835 / 4) (- 81 / 4)]])"
proof -
  have w_shift: "f32 (5 / 2) = 5 / 2"
    by (simp add: f32_large [where n = 1] round_even_def Let_def)
  have w_poz: "f32 (9 / 2) = 9 / 2"
    by (simp add: f32_large [where n = 2] round_even_def Let_def)
  have w_h: "f32 (1 / 8) = 1 / 8"
    by (simp add: f32_small [where n = 3] round_even_def Let_def)
  have w_om: "f32 (7 / 8) = 7 / 8"
    by (simp add: f32_small [where n = 1] round_even_def Let_def)
  have w_nd: "f32 (63 / 4) = 63 / 4"
    by (simp add: f32_large [where n = 3] round_even_def Let_def)
  have w_x: "f32 (967 / 2) = 967 / 2"
    by (simp add: f32_large [where n = 8] round_even_def Let_def)
  have w_y: "f32 (949 / 2) = 949 / 2"
    by (simp add: f32_large [where n = 8] round_even_def Let_def)
  have w_xw: "f32 (1087 / 2) = 1087 / 2"
    by (simp add: f32_large [where n = 9] round_even_def Let_def)
  have w_yh: "f32 (1069 / 2) = 1069 / 2"
    by (simp add: f32_large [where n = 9] round_even_def Let_def)
  have w_bx0: "f32 (1871 / 4) = 1871 / 4"
    by (simp add: f32_large [where n = 8] round_even_def Let_def)
  have w_bx1: "f32 (2111 / 4) = 2111 / 4"
    by (simp add: f32_large [where n = 9] round_even_def Let_def)
  have w_by0: "f32 (1835 / 4) = 1835 / 4"
    by (simp add: f32_large [where n = 8] round_even_def Let_def)
  have w_by1: "f32 (2075 / 4) = 2075 / 4"
    by (simp add: f32_large [where n = 9] round_even_def Let_def)
  have w_bz: "f32 (81 / 4) = 81 / 4"
    by (simp add: f32_large [where n = 4] round_even_def Let_def)
  show ?thesis
    using drawKeycap3D_geometry
        [of "\<lparr>label = ''Q'', pos = Vec2 486 477, ksize = Vec2 60 60,
         pressAnim = 1 / 4, isPressed = True\<rparr>" KEY_DEPTH]
    by (simp add: Let_def KEY_DEPTH_def
        w_shift w_poz w_h w_om w_nd w_x w_y w_xw w_yh w_bx0 w_bx1 w_by0 w_by1 w_bz)
qed

text \<open>
  The same key at pressAnim 0.3f = 5033165 / 16777216.  The front corner is drawn at
  x = 483 and y = 474, while x - 10 * p and y - 10 * p are 4051697663 / 8388608 and
  3976200191 / 8388608; it is drawn at z = - 11324621 / 2097152, while depth * p is
  45298485 / 8388608; the top face reaches 250675 / 16384 to the left of the front
  corner, while depth * (1 - 0.5 * p) is 256691403 / 16777216.
\<close>

theorem drawKeycap3D_exact_shift_counterexample:
  "(let key = \<lparr>label = ''Q'', pos = Vec2 486 477, ksize = Vec2 60 60,
         pressAnim = f32 0.3, isPressed = True\<rparr>;
        front = hd (drawKeycap3D KEY_DEPTH key);
        top = drawKeycap3D KEY_DEPTH key ! 1
    in pressAnim key = 5033165 / 16777216 \<and> 0 \<le> pressAnim key \<and> pressAnim key \<le> 0.5
     \<and> px (v0 front) = 483 \<and> vx (pos key) - 10 * pressAnim key = 4051697663 / 8388608
     \<and> py (v0 front) = 474 \<and> vy (pos key) - 10 * pressAnim key = 3976200191 / 8388608
     \<and> pz (v0 front) = - (11324621 / 2097152) \<and> KEY_DEPTH * pressAnim key = 45298485 / 8388608
     \<and> px (v0 top) - px (v3 top) = 250675 / 16384
     \<and> KEY_DEPTH * (1 - 0.5 * pressAnim key) = 256691403 / 16777216)"
proof -
  have c_p: "f32 (3 / 10) = 5033165 / 16777216"
    by (simp add: f32_small [where n = 2] round_even_def Let_def)
  have c_shift: "f32 (25165825 / 8388608) = 3"
    by (simp add: f32_large [where n = 1] round_even_def Let_def)
  have c_poz: "f32 (45298485 / 8388608) = 11324621 / 2097152"
    by (simp add: f32_large [where n = 2] round_even_def Let_def)
  have c_h: "f32 (5033165 / 33554432) = 5033165 / 33554432"
    by (simp add: f32_small [where n = 3] round_even_def Let_def)
  have c_om: "f32 (28521267 / 33554432) = 7130317 / 8388608"
    by (simp add: f32_small [where n = 1] round_even_def Let_def)
  have c_nd: "f32 (64172853 / 4194304) = 16043213 / 1048576"
    by (simp add: f32_large [where n = 3] round_even_def Let_def)
  have c_x: "f32 (483) = 483"
    by (simp add: f32_large [where n = 8] round_even_def Let_def)
  have c_y: "f32 (474) = 474"
    by (simp add: f32_large [where n = 8] round_even_def Let_def)
  have c_bx0: "f32 (490418995 / 1048576) = 7662797 / 16384"
    by (simp add: f32_large [where n = 8] round_even_def Let_def)
  show ?thesis
    by (simp add: Let_def drawKeycap3D_def KEY_DEPTH_def
        c_p c_shift c_poz c_h c_om c_nd c_x c_y c_bx0)
qed

subsection \<open>Layout engine\<close>

lemmas glfw_defs = GLFW_KEY_SPACE_def GLFW_KEY_APOSTROPHE_def GLFW_KEY_MINUS_def
  GLFW_KEY_0_def GLFW_KEY_1_def GLFW_KEY_2_def GLFW_KEY_3_def GLFW_KEY_4_def GLFW_KEY_5_def
  GLFW_KEY_6_def GLFW_KEY_7_def GLFW_KEY_8_def GLFW_KEY_9_def GLFW_KEY_SEMICOLON_def
  GLFW_KEY_EQUAL_def GLFW_KEY_A_def GLFW_KEY_B_def GLFW_KEY_C_def GLFW_KEY_D_def GLFW_KEY_E_def
  GLFW_KEY_F_def GLFW_KEY_G_def GLFW_KEY_H_def GLFW_KEY_I_def GLFW_KEY_J_def GLFW_KEY_K_def
  GLFW_KEY_L_def GLFW_KEY_M_def GLFW_KEY_N_def GLFW_KEY_O_def GLFW_KEY_P_def GLFW_KEY_Q_def
  GLFW_KEY_R_def GLFW_KEY_S_def GLFW_KEY_T_def GLFW_KEY_U_def GLFW_KEY_V_def GLFW_KEY_W_def
  GLFW_KEY_X_def GLFW_KEY_Y_def GLFW_KEY_Z_def GLFW_KEY_LEFT_BRACKET_def
  GLFW_KEY_RIGHT_BRACKET_def GLFW_KEY_GRAVE_ACCENT_def GLFW_KEY_ESCAPE_def
  GLFW_KEY_BACKSPACE_def GLFW_KEY_INSERT_def GLFW_KEY_DELETE_def GLFW_KEY_RIGHT_def
  GLFW_KEY_LEFT_def GLFW_KEY_DOWN_def GLFW_KEY_UP_def GLFW_KEY_PAGE_UP_def
  GLFW_KEY_PAGE_DOWN_def GLFW_KEY_HOME_def GLFW_KEY_END_def GLFW_KEY_F1_def
  GLFW_KEY_LEFT_SHIFT_def GLFW_KEY_LEFT_CONTROL_def GLFW_KEY_LEFT_ALT_def
  GLFW_KEY_RIGHT_SHIFT_def GLFW_KEY_RIGHT_CONTROL_def GLFW_KEY_RIGHT_ALT_def

lemmas layout_defs = KEY_WIDTH_def KEY_HEIGHT_def KEY_SPACING_def KEY_SPACING_X_def
  KEY_SPACING_Y_def

lemma pushKey_simps:
  "keyboardKeys (pushKey l x y c s) =
     keyboardKeys s @ [\<lparr>label = l, pos = Vec2 x y, ksize = Vec2 KEY_WIDTH KEY_HEIGHT,
                          pressAnim = 0, isPressed = False\<rparr>]"
  "glfwKeyToIndex (pushKey l x y c s) = (glfwKeyToIndex s)(c \<mapsto> int (length (keyboardKeys s)))"
  "sounds (pushKey l x y c s) = sounds s"
  by (simp_all add: pushKey_def Let_def)

lemma addKey_simps:
  "keyboardKeys (addKey l x y w h kt c s) =
     keyboardKeys s @ [\<lparr>label = l, pos = Vec2 x y, ksize = Vec2 w h, pressAnim = 0,
                          isPressed = False, keycapRemoved = False, ktype = kt\<rparr>]"
  "glfwKeyToIndex (addKey l x y w h kt c s) =
     (if c \<noteq> - 1 then (glfwKeyToIndex s)(c \<mapsto> int (length (keyboardKeys s)))
      else glfwKeyToIndex s)"
  "sounds (addKey l x y w h kt c s) = sounds s"
  "g_leftMouseDown (addKey l x y w h kt c s) = g_leftMouseDown s"
  "g_mainStartX (addKey l x y w h kt c s) = g_mainStartX s"
  "g_mainStartY (addKey l x y w h kt c s) = g_mainStartY s"
  by (simp_all add: addKey_def Let_def)

lemma initKeyboard_keys:
  "keyboardKeys (initKeyboard w h s) =
       keyRow funcKeys KEY_SPACING KEY_SPACING
     @ keyRow (map (\<lambda>c. [c]) ''1234567890'') KEY_SPACING
         (KEY_SPACING + (KEY_HEIGHT + KEY_SPACING))
     @ keyRow (map (\<lambda>c. [c]) ''QWERTYUIOP'') KEY_SPACING
         (KEY_SPACING + 2 * (KEY_HEIGHT + KEY_SPACING))
     @ keyRow (map (\<lambda>c. [c]) ''ASDFGHJKL'') (KEY_SPACING + (KEY_WIDTH + KEY_SPACING) / 2)
         (KEY_SPACING + 3 * (KEY_HEIGHT + KEY_SPACING))
     @ keyRow (map (\<lambda>c. [c]) ''ZXCVBNM'') (KEY_SPACING + (KEY_WIDTH + KEY_SPACING))
         (KEY_SPACING + 4 * (KEY_HEIGHT + KEY_SPACING))"
  unfolding initKeyboard_def Let_def funcKeys_def keyRow_def
  by (simp add: pushKey_simps layout_defs)

lemma initKeyboardLayout_keys:
  "keyboardKeys (initKeyboardLayout s) = boardKeys (g_mainStartX s) (g_mainStartY s)"
  unfolding initKeyboardLayout_def Let_def case_prod_beta row2_def row3_def row4_def row5_def
    boardKeys_def boardTable_def
  by (simp add: addKey_simps fKeysLoop.simps to_string.simps layout_defs)

lemma lookup_wf_clear: "lookup_wf (s\<lparr>keyboardKeys := [], glfwKeyToIndex := Map.empty\<rparr>)"
  by (simp add: lookup_wf_def)

lemma lookup_wf_push:
  assumes "lookup_wf s"
  shows "lookup_wf (s\<lparr>keyboardKeys := keyboardKeys s @ [k],
                       glfwKeyToIndex := (glfwKeyToIndex s)(c \<mapsto> int (length (keyboardKeys s)))\<rparr>)"
  using assms unfolding lookup_wf_def
  by (auto split: if_splits) force+

lemma lookup_wf_append:
  assumes "lookup_wf s"
  shows "lookup_wf (s\<lparr>keyboardKeys := keyboardKeys s @ [k]\<rparr>)"
  using assms unfolding lookup_wf_def
  by auto force

lemma pushKey_wf: "lookup_wf s \<Longrightarrow> lookup_wf (pushKey lbl x y c s)"
  using lookup_wf_push [where s = s and c = c] by (simp add: pushKey_def Let_def)

lemma addKey_wf: "lookup_wf s \<Longrightarrow> lookup_wf (addKey lbl x y w h kt c s)"
  using lookup_wf_push [where s = s and c = c] lookup_wf_append [where s = s]
  by (simp add: addKey_def Let_def)

lemma funcKeysLoop_wf: "lookup_wf s \<Longrightarrow> lookup_wf (funcKeysLoop ls i x y s)"
  by (induction ls arbitrary: i x s) (simp_all add: pushKey_wf)

lemma numRowLoop_wf: "lookup_wf s \<Longrightarrow> lookup_wf (numRowLoop cs x y s)"
  by (induction cs arbitrary: x s) (simp_all add: pushKey_wf)

lemma letterRowLoop_wf: "lookup_wf s \<Longrightarrow> lookup_wf (letterRowLoop cs x y s)"
  by (induction cs arbitrary: x s) (simp_all add: pushKey_wf)

lemma addRow_wf: "lookup_wf s \<Longrightarrow> lookup_wf (snd (addRow row x y s))"
  by (induction row arbitrary: x s) (simp_all add: addKey_wf)

lemma fKeysLoop_wf: "lookup_wf s \<Longrightarrow> lookup_wf (snd (fKeysLoop i x y s))"
proof (induction i x y s rule: fKeysLoop.induct)
  case (1 i currentX currentY s)
  show ?case
  proof (cases "i < 12")
    case True
    then show ?thesis using 1 by (subst fKeysLoop.simps) (simp add: addKey_wf)
  next
    case False
    then show ?thesis using 1 by (subst fKeysLoop.simps) simp
  qed
qed

lemma initKeyboard_wf: "lookup_wf (initKeyboard w h s)"
  unfolding initKeyboard_def Let_def
  by (intro letterRowLoop_wf numRowLoop_wf funcKeysLoop_wf lookup_wf_clear)

lemma initKeyboardLayout_wf: "lookup_wf (initKeyboardLayout s)"
  unfolding initKeyboardLayout_def Let_def case_prod_beta
  by (intro addKey_wf addRow_wf fKeysLoop_wf lookup_wf_clear)

text \<open>
  C4. After layout initialisation (initKeyboardLayout of the full-size board, initKeyboard
  of the compact board, from any state), the lookup from key code to slot index is
  injective on the key codes it maps: no two distinct key codes have the same slot, and
  every slot it names is an index of the vector.  A map gives each key code at most one
  slot by construction.
\<close>

theorem lookup_injective:
  "inj_on (glfwKeyToIndex (initKeyboardLayout s)) (dom (glfwKeyToIndex (initKeyboardLayout s)))
   \<and> ran (glfwKeyToIndex (initKeyboardLayout s))
       \<subseteq> {0 ..< int (length (keyboardKeys (initKeyboardLayout s)))}
   \<and> inj_on (glfwKeyToIndex (initKeyboard w h c)) (dom (glfwKeyToIndex (initKeyboard w h c)))
   \<and> ran (glfwKeyToIndex (initKeyboard w h c))
       \<subseteq> {0 ..< int (length (keyboardKeys (initKeyboard w h c)))}"
  using initKeyboardLayout_wf [of s] initKeyboard_wf [of w h c]
  unfolding lookup_wf_def inj_on_def dom_def ran_def by auto

lemma addRow_fields:
  "sounds (snd (addRow row x y s)) = sounds s"
  "g_leftMouseDown (snd (addRow row x y s)) = g_leftMouseDown s"
  "g_mainStartX (snd (addRow row x y s)) = g_mainStartX s"
  "g_mainStartY (snd (addRow row x y s)) = g_mainStartY s"
  by (induction row arbitrary: x s; simp add: addKey_simps)+

lemma fKeysLoop_fields:
  "sounds (snd (fKeysLoop i x y s)) = sounds s \<and>
   g_leftMouseDown (snd (fKeysLoop i x y s)) = g_leftMouseDown s \<and>
   g_mainStartX (snd (fKeysLoop i x y s)) = g_mainStartX s \<and>
   g_mainStartY (snd (fKeysLoop i x y s)) = g_mainStartY s"
proof (induction i x y s rule: fKeysLoop.induct)
  case (1 i currentX currentY s)
  show ?case
  proof (cases "i < 12")
    case True
    then show ?thesis using 1 by (subst (1 2 3 4) fKeysLoop.simps) (simp add: addKey_simps)
  next
    case False
    then show ?thesis by (subst (1 2 3 4) fKeysLoop.simps) simp
  qed
qed

lemma initKeyboardLayout_fields:
  "sounds (initKeyboardLayout s) = sounds s"
  "g_leftMouseDown (initKeyboardLayout s) = g_leftMouseDown s"
  "g_mainStartX (initKeyboardLayout s) = g_mainStartX s"
  "g_mainStartY (initKeyboardLayout s) = g_mainStartY s"
  unfolding initKeyboardLayout_def Let_def case_prod_beta
  by (simp_all add: addKey_simps addRow_fields fKeysLoop_fields)

lemma board_1080p_simps:
  "keyboardKeys board_1080p = boardKeys 486 345"
  "sounds board_1080p = []"
  "g_leftMouseDown board_1080p = False"
  by (simp_all add: board_1080p_def main_init_def Let_def initKeyboardLayout_keys
      initKeyboardLayout_fields initial_board_def layout_defs)

text \<open>
  C7. In the compact layout every row is laid out left to right with the keys
  KEY_WIDTH + KEY_SPACING apart, and the home row (ASDFGHJKL) starts half a key pitch,
  (KEY_WIDTH + KEY_SPACING) / 2 = 35, to the right of the three rows above it.  That is
  not half a key width, which is 30.  In the full-size layout the home row is not
  offset: its first key A (slot 39) has the x of Q (slot 27) in the row above.
\<close>

theorem compact_layout_rows:
  "keyboardKeys (initKeyboard w h s) =
       keyRow funcKeys KEY_SPACING KEY_SPACING
     @ keyRow (map (\<lambda>c. [c]) ''1234567890'') KEY_SPACING
         (KEY_SPACING + (KEY_HEIGHT + KEY_SPACING))
     @ keyRow (map (\<lambda>c. [c]) ''QWERTYUIOP'') KEY_SPACING
         (KEY_SPACING + 2 * (KEY_HEIGHT + KEY_SPACING))
     @ keyRow (map (\<lambda>c. [c]) ''ASDFGHJKL'') (KEY_SPACING + (KEY_WIDTH + KEY_SPACING) / 2)
         (KEY_SPACING + 3 * (KEY_HEIGHT + KEY_SPACING))
     @ keyRow (map (\<lambda>c. [c]) ''ZXCVBNM'') (KEY_SPACING + (KEY_WIDTH + KEY_SPACING))
         (KEY_SPACING + 4 * (KEY_HEIGHT + KEY_SPACING))
   \<and> (KEY_WIDTH + KEY_SPACING) / 2 = 35 \<and> KEY_WIDTH / 2 = 30
   \<and> label (keyboardKeys (initKeyboardLayout b) ! 27) = ''Q''
   \<and> label (keyboardKeys (initKeyboardLayout b) ! 39) = ''A''
   \<and> vx (pos (keyboardKeys (initKeyboardLayout b) ! 39))
       = vx (pos (keyboardKeys (initKeyboardLayout b) ! 27))"
proof -
  have "(KEY_WIDTH + KEY_SPACING) / 2 = 35" "KEY_WIDTH / 2 = 30"
    by (simp_all add: layout_defs)
  moreover have "label (boardKeys x y ! 27) = ''Q''" "label (boardKeys x y ! 39) = ''A''"
    "vx (pos (boardKeys x y ! 39)) = vx (pos (boardKeys x y ! 27))" for x y
    by (simp_all add: boardKeys_def boardTable_def)
  ultimately show ?thesis
    by (simp only: initKeyboard_keys initKeyboardLayout_keys simp_thms)
qed

text \<open>
  The compact layout as \<^verbatim>\<open>main\<close> builds it: A lies one row below Q and 35 to the right.
\<close>

theorem home_row_offset_counterexample:
  "(let ks = keyboardKeys (initKeyboard 1280 720 initial_keyboard)
    in label (ks ! 22) = ''Q'' \<and> label (ks ! 32) = ''A''
     \<and> vy (pos (ks ! 32)) - vy (pos (ks ! 22)) = KEY_HEIGHT + KEY_SPACING
     \<and> vx (pos (ks ! 32)) - vx (pos (ks ! 22)) = 35
     \<and> KEY_WIDTH / 2 = 30)"
  by (simp add: initKeyboard_keys keyRow_def funcKeys_def layout_defs Let_def)

text \<open>
  In the full-size layout, wherever it is placed, no position is over two keys: the
  rectangles of any two slots are apart.
\<close>

lemma all_apart_nth:
  "all_apart xs \<Longrightarrow> i < j \<Longrightarrow> j < length xs \<Longrightarrow> apart (xs ! i) (xs ! j)"
proof (induction xs arbitrary: i j)
  case Nil
  then show ?case by simp
next
  case (Cons a as)
  show ?case
  proof (cases i)
    case 0
    then obtain j' where j: "j = Suc j'" using Cons.prems(2) by (cases j) auto
    then show ?thesis using Cons.prems 0 by (auto simp: list_all_length)
  next
    case (Suc i')
    then obtain j' where j: "j = Suc j'" using Cons.prems(2) by (cases j) auto
    then show ?thesis using Cons.prems Suc Cons.IH [of i' j'] by auto
  qed
qed

lemma boardTable_apart: "all_apart boardTable"
  by (simp add: boardTable_def apart_def KEY_HEIGHT_def)

lemma board_no_overlap:
  assumes "i < j" "j < length (boardKeys sx sy)"
  shows "\<not> (cursorOver x y (boardKeys sx sy ! i) \<and> cursorOver x y (boardKeys sx sy ! j))"
proof -
  have j: "j < length boardTable" and i: "i < length boardTable"
    using assms by (simp_all add: boardKeys_def)
  have "apart (boardTable ! i) (boardTable ! j)"
    using all_apart_nth [OF boardTable_apart assms(1) j] .
  then show ?thesis
    using i j
    by (auto simp: boardKeys_def apart_def cursorOver_def split: prod.splits)
qed

text \<open>Slots of the two example boards.\<close>

lemma board_lookup_TAB: "glfwKeyToIndex board_1080p 258 = None"
  unfolding board_1080p_def main_init_def initKeyboardLayout_def Let_def case_prod_beta
    row2_def row3_def row4_def row5_def
  by (simp add: addKey_simps fKeysLoop.simps glfw_defs)

lemma board_lookup_A: "glfwKeyToIndex board_1080p GLFW_KEY_A = Some 39"
  unfolding board_1080p_def main_init_def initKeyboardLayout_def Let_def case_prod_beta
    row2_def row3_def row4_def row5_def
  by (simp add: addKey_simps fKeysLoop.simps glfw_defs)

lemma compact_lookup_TAB: "glfwKeyToIndex (initKeyboard 1280 720 initial_keyboard) 258 = None"
  unfolding initKeyboard_def Let_def funcKeys_def
  by (simp add: pushKey_simps glfw_defs)

lemma compact_lookup_A: "glfwKeyToIndex (initKeyboard 1280 720 initial_keyboard) GLFW_KEY_A = Some 32"
  unfolding initKeyboard_def Let_def funcKeys_def
  by (simp add: pushKey_simps glfw_defs)

subsection \<open>Input router\<close>

lemma cursorOver_update [simp]:
  "cursorOver x y (k\<lparr>isPressed := b\<rparr>) = cursorOver x y k"
  "cursorOver x y (k'\<lparr>keycapRemoved := b\<rparr>) = cursorOver x y k'"
  by (simp_all add: cursorOver_def)

lemma toggleLoop_twice: "toggleLoop x y (toggleLoop x y ks) = ks"
  by (induction ks) auto

lemma toggleLoop_isPressed: "map isPressed (toggleLoop x y ks) = map isPressed ks"
  by (induction ks) auto

lemma toggleLoop_first:
  "i < length ks \<Longrightarrow> cursorOver x y (ks ! i) \<Longrightarrow> \<forall>j<i. \<not> cursorOver x y (ks ! j)
   \<Longrightarrow> toggleLoop x y ks = ks[i := (ks ! i)\<lparr>keycapRemoved := \<not> keycapRemoved (ks ! i)\<rparr>]"
proof (induction ks arbitrary: i)
  case Nil
  then show ?case by simp
next
  case (Cons k ks)
  show ?case
  proof (cases i)
    case 0
    with Cons.prems show ?thesis by simp
  next
    case (Suc i')
    with Cons.prems have "\<not> cursorOver x y k" by auto
    moreover have "toggleLoop x y ks = ks[i' := (ks ! i')\<lparr>keycapRemoved := \<not> keycapRemoved (ks ! i')\<rparr>]"
      using Cons.prems Suc by (intro Cons.IH) auto
    ultimately show ?thesis using Suc by simp
  qed
qed

lemma toggleLoop_none:
  "\<forall>k\<in>set ks. \<not> cursorOver x y k \<Longrightarrow> toggleLoop x y ks = ks"
  by (induction ks) auto

lemma pressLoop_first:
  "i < length ks \<Longrightarrow> cursorOver x y (ks ! i) \<Longrightarrow> \<forall>j<i. \<not> cursorOver x y (ks ! j)
   \<Longrightarrow> pressLoop x y n ks = (ks[i := (ks ! i)\<lparr>isPressed := True\<rparr>], [n + i])"
proof (induction ks arbitrary: i n)
  case Nil
  then show ?case by simp
next
  case (Cons k ks)
  show ?case
  proof (cases i)
    case 0
    with Cons.prems show ?thesis by simp
  next
    case (Suc i')
    with Cons.prems have "\<not> cursorOver x y k" by auto
    moreover have "pressLoop x y (Suc n) ks = (ks[i' := (ks ! i')\<lparr>isPressed := True\<rparr>], [Suc n + i'])"
      using Cons.prems Suc by (intro Cons.IH) auto
    ultimately show ?thesis using Suc by simp
  qed
qed

lemma pressLoop_none:
  "\<forall>k\<in>set ks. \<not> cursorOver x y k \<Longrightarrow> pressLoop x y n ks = (ks, [])"
  by (induction ks arbitrary: n) auto

lemma dragLoop_keys:
  "fst (dragLoop x y n ks) = map (\<lambda>k. k\<lparr>isPressed := cursorOver x y k\<rparr>) ks"
  by (induction ks arbitrary: n) (auto simp: case_prod_beta Let_def)

lemma dragLoop_log:
  "snd (dragLoop x y n ks) =
     map fst (filter (\<lambda>(j, k). cursorOver x y k \<and> \<not> isPressed k) (enumerate n ks))"
  by (induction ks arbitrary: n) (auto simp: case_prod_beta Let_def)

lemma dragLoop_count:
  "count_list (snd (dragLoop x y n ks)) m =
     (if n \<le> m \<and> m < n + length ks \<and> cursorOver x y (ks ! (m - n)) \<and> \<not> isPressed (ks ! (m - n))
      then 1 else 0)"
proof (induction ks arbitrary: n)
  case Nil
  then show ?case by simp
next
  case (Cons k ks)
  have tail: "count_list (snd (dragLoop x y (Suc n) ks)) m =
     (if Suc n \<le> m \<and> m < Suc n + length ks \<and> cursorOver x y (ks ! (m - Suc n))
          \<and> \<not> isPressed (ks ! (m - Suc n)) then 1 else 0)"
    by (rule Cons.IH)
  show ?case
  proof (cases "m = n")
    case True
    then show ?thesis using tail by (auto simp: case_prod_beta Let_def)
  next
    case False
    then have "n \<le> m \<Longrightarrow> (k # ks) ! (m - n) = ks ! (m - Suc n)"
      by (simp add: nth_Cons' )
    then show ?thesis using tail False
      by (auto simp: case_prod_beta Let_def)
  qed
qed

lemma cpc_keys:
  "g_leftMouseDown s \<Longrightarrow>
   keyboardKeys (cursor_position_callback s x y) =
     map (\<lambda>k. k\<lparr>isPressed := cursorOver x y k\<rparr>) (keyboardKeys s)"
  using dragLoop_keys [of x y 0 "keyboardKeys s"]
  by (simp add: cursor_position_callback_def case_prod_beta)

lemma cpc_sounds:
  "g_leftMouseDown s \<Longrightarrow>
   sounds (cursor_position_callback s x y) = sounds s @ snd (dragLoop x y 0 (keyboardKeys s))"
  by (simp add: cursor_position_callback_def case_prod_beta)

lemma cpc_held: "g_leftMouseDown (cursor_position_callback s x y) = g_leftMouseDown s"
  by (simp add: cursor_position_callback_def case_prod_beta)

lemma cursor_moves_append: "cursor_moves s (ps @ qs) = cursor_moves (cursor_moves s ps) qs"
  by (induction ps arbitrary: s) auto

lemma cursor_moves_held: "g_leftMouseDown (cursor_moves s ps) = g_leftMouseDown s"
  by (induction ps arbitrary: s) (auto simp: cpc_held)

lemma cursor_moves_keys:
  "g_leftMouseDown s \<Longrightarrow> ps \<noteq> [] \<Longrightarrow>
   keyboardKeys (cursor_moves s ps) =
     map (\<lambda>k. k\<lparr>isPressed := cursorOver (fst (last ps)) (snd (last ps)) k\<rparr>) (keyboardKeys s)"
proof (induction ps arbitrary: s)
  case Nil
  then show ?case by simp
next
  case (Cons p ps)
  show ?case
  proof (cases "ps = []")
    case True
    then show ?thesis using Cons.prems by (simp add: cpc_keys)
  next
    case False
    have "keyboardKeys (cursor_moves (cursor_position_callback s (fst p) (snd p)) ps) =
      map (\<lambda>k. k\<lparr>isPressed := cursorOver (fst (last ps)) (snd (last ps)) k\<rparr>)
        (keyboardKeys (cursor_position_callback s (fst p) (snd p)))"
      using Cons.prems False by (intro Cons.IH) (simp_all add: cpc_held)
    then show ?thesis using Cons.prems False by (simp add: cpc_keys)
  qed
qed

lemma moves_outside_count:
  "g_leftMouseDown s \<Longrightarrow> Y < length (keyboardKeys s) \<Longrightarrow>
   \<forall>p\<in>set ps. \<not> cursorOver (fst p) (snd p) (keyboardKeys s ! Y) \<Longrightarrow>
   \<exists>log. sounds (cursor_moves s ps) = sounds s @ log \<and> count_list log Y = 0"
proof (induction ps arbitrary: s)
  case Nil
  then show ?case by simp
next
  case (Cons p ps)
  let ?s1 = "cursor_position_callback s (fst p) (snd p)"
  have k1: "keyboardKeys ?s1 ! Y =
      (keyboardKeys s ! Y)\<lparr>isPressed := cursorOver (fst p) (snd p) (keyboardKeys s ! Y)\<rparr>"
    using Cons.prems by (simp add: cpc_keys)
  have "\<exists>log. sounds (cursor_moves ?s1 ps) = sounds ?s1 @ log \<and> count_list log Y = 0"
    using Cons.prems k1 by (intro Cons.IH) (simp_all add: cpc_held cpc_keys)
  then obtain log where log: "sounds (cursor_moves ?s1 ps) = sounds ?s1 @ log" "count_list log Y = 0"
    by blast
  have "count_list (snd (dragLoop (fst p) (snd p) 0 (keyboardKeys s))) Y = 0"
    using Cons.prems by (simp add: dragLoop_count)
  then show ?case using log Cons.prems(1)
    by (simp add: cpc_sounds)
qed

lemma moves_inside_count:
  "g_leftMouseDown s \<Longrightarrow> Y < length (keyboardKeys s) \<Longrightarrow>
   \<forall>p\<in>set ps. cursorOver (fst p) (snd p) (keyboardKeys s ! Y) \<Longrightarrow>
   \<exists>log. sounds (cursor_moves s ps) = sounds s @ log \<and>
     count_list log Y = (if ps \<noteq> [] \<and> \<not> isPressed (keyboardKeys s ! Y) then 1 else 0)"
proof (induction ps arbitrary: s)
  case Nil
  then show ?case by simp
next
  case (Cons p ps)
  let ?s1 = "cursor_position_callback s (fst p) (snd p)"
  have k1: "keyboardKeys ?s1 ! Y =
      (keyboardKeys s ! Y)\<lparr>isPressed := cursorOver (fst p) (snd p) (keyboardKeys s ! Y)\<rparr>"
    using Cons.prems by (simp add: cpc_keys)
  have "\<exists>log. sounds (cursor_moves ?s1 ps) = sounds ?s1 @ log \<and>
      count_list log Y = (if ps \<noteq> [] \<and> \<not> isPressed (keyboardKeys ?s1 ! Y) then 1 else 0)"
    using Cons.prems k1 by (intro Cons.IH) (simp_all add: cpc_held cpc_keys)
  then obtain log where log: "sounds (cursor_moves ?s1 ps) = sounds ?s1 @ log" "count_list log Y = 0"
    using k1 Cons.prems by auto
  have "count_list (snd (dragLoop (fst p) (snd p) 0 (keyboardKeys s))) Y =
      (if \<not> isPressed (keyboardKeys s ! Y) then 1 else 0)"
    using Cons.prems by (simp add: dragLoop_count)
  then show ?case using log Cons.prems(1)
    by (simp add: cpc_sounds)
qed

lemma cursor_moves_count:
  "g_leftMouseDown s \<Longrightarrow> Y < length (keyboardKeys s) \<Longrightarrow>
   \<exists>log. sounds (cursor_moves s ps) = sounds s @ log \<and>
     count_list log Y =
       entries (isPressed (keyboardKeys s ! Y))
         (map (\<lambda>p. cursorOver (fst p) (snd p) (keyboardKeys s ! Y)) ps)"
proof (induction ps arbitrary: s)
  case Nil
  then show ?case by simp
next
  case (Cons p ps)
  let ?s1 = "cursor_position_callback s (fst p) (snd p)"
  have k1: "keyboardKeys ?s1 ! Y =
      (keyboardKeys s ! Y)\<lparr>isPressed := cursorOver (fst p) (snd p) (keyboardKeys s ! Y)\<rparr>"
    using Cons.prems by (simp add: cpc_keys)
  have "\<exists>log. sounds (cursor_moves ?s1 ps) = sounds ?s1 @ log \<and>
      count_list log Y = entries (isPressed (keyboardKeys ?s1 ! Y))
         (map (\<lambda>p. cursorOver (fst p) (snd p) (keyboardKeys ?s1 ! Y)) ps)"
    using Cons.prems by (intro Cons.IH) (simp_all add: cpc_held cpc_keys)
  then obtain log where log: "sounds (cursor_moves ?s1 ps) = sounds ?s1 @ log"
    "count_list log Y = entries (cursorOver (fst p) (snd p) (keyboardKeys s ! Y))
         (map (\<lambda>p. cursorOver (fst p) (snd p) (keyboardKeys s ! Y)) ps)"
    using k1 by auto
  have "count_list (snd (dragLoop (fst p) (snd p) 0 (keyboardKeys s))) Y =
      (if cursorOver (fst p) (snd p) (keyboardKeys s ! Y) \<and> \<not> isPressed (keyboardKeys s ! Y)
       then 1 else 0)"
    using Cons.prems by (simp add: dragLoop_count)
  then show ?case using log Cons.prems(1)
    by (simp add: cpc_sounds)
qed

lemma left_press_first:
  "i < length (keyboardKeys s) \<Longrightarrow> cursorOver x y (keyboardKeys s ! i) \<Longrightarrow>
   \<forall>j<i. \<not> cursorOver x y (keyboardKeys s ! j) \<Longrightarrow>
   mouse_button_callback s x y GLFW_MOUSE_BUTTON_LEFT GLFW_PRESS mods =
     s\<lparr>keyboardKeys := (keyboardKeys s)[i := (keyboardKeys s ! i)\<lparr>isPressed := True\<rparr>],
       sounds := sounds s @ [i], g_leftMouseDown := True\<rparr>"
  using pressLoop_first [of i "keyboardKeys s" x y 0]
  by (simp add: mouse_button_callback_def)

lemma right_press_first:
  "i < length (keyboardKeys s) \<Longrightarrow> cursorOver x y (keyboardKeys s ! i) \<Longrightarrow>
   \<forall>j<i. \<not> cursorOver x y (keyboardKeys s ! j) \<Longrightarrow>
   mouse_button_callback s x y GLFW_MOUSE_BUTTON_RIGHT GLFW_PRESS mods =
     s\<lparr>keyboardKeys := (keyboardKeys s)
            [i := (keyboardKeys s ! i)\<lparr>keycapRemoved := \<not> keycapRemoved (keyboardKeys s ! i)\<rparr>]\<rparr>"
  using toggleLoop_first [of i "keyboardKeys s" x y]
  by (simp add: mouse_button_callback_def GLFW_MOUSE_BUTTON_LEFT_def GLFW_MOUSE_BUTTON_RIGHT_def)

lemma board_1080p_slots:
  "length (boardKeys 486 345) = 74"
  "boardKeys 486 345 ! 0 =
     \<lparr>label = ''Esc'', pos = Vec2 486 345, ksize = Vec2 60 60, pressAnim = 0,
      isPressed = False, keycapRemoved = False, ktype = FUNCTION\<rparr>"
  "boardKeys 486 345 ! Suc 0 =
     \<lparr>label = ''F1'', pos = Vec2 552 345, ksize = Vec2 60 60, pressAnim = 0,
      isPressed = False, keycapRemoved = False, ktype = FUNCTION\<rparr>"
  by (simp_all add: boardKeys_def boardTable_def layout_defs)

lemma pressedEsc:
  "mouse_button_callback board_1080p 516 375 GLFW_MOUSE_BUTTON_LEFT GLFW_PRESS 0 =
     board_1080p\<lparr>keyboardKeys :=
         (boardKeys 486 345)[0 := (boardKeys 486 345 ! 0)\<lparr>isPressed := True\<rparr>],
       sounds := [0], g_leftMouseDown := True\<rparr>"
  using left_press_first [of 0 board_1080p 516 375 0]
  by (simp add: board_1080p_simps board_1080p_slots cursorOver_def)

lemma right_release: "mouse_button_callback s x y GLFW_MOUSE_BUTTON_RIGHT GLFW_RELEASE mods = s"
  by (simp add: mouse_button_callback_def GLFW_MOUSE_BUTTON_LEFT_def
      GLFW_MOUSE_BUTTON_RIGHT_def GLFW_PRESS_def GLFW_RELEASE_def)

lemma right_press:
  "mouse_button_callback s x y GLFW_MOUSE_BUTTON_RIGHT GLFW_PRESS mods =
     s\<lparr>keyboardKeys := toggleLoop x y (keyboardKeys s)\<rparr>"
  by (simp add: mouse_button_callback_def GLFW_MOUSE_BUTTON_LEFT_def
      GLFW_MOUSE_BUTTON_RIGHT_def)

lemma left_press:
  "mouse_button_callback s x y GLFW_MOUSE_BUTTON_LEFT GLFW_PRESS mods =
     s\<lparr>keyboardKeys := fst (pressLoop x y 0 (keyboardKeys s)),
       sounds := sounds s @ snd (pressLoop x y 0 (keyboardKeys s)),
       g_leftMouseDown := True\<rparr>"
  by (simp add: mouse_button_callback_def case_prod_beta)

lemma cpc_eq:
  "g_leftMouseDown s \<Longrightarrow>
   cursor_position_callback s x y =
     s\<lparr>keyboardKeys := map (\<lambda>k. k\<lparr>isPressed := cursorOver x y k\<rparr>) (keyboardKeys s),
       sounds := sounds s @ map fst (filter (\<lambda>(j, k). cursorOver x y k \<and> \<not> isPressed k)
                                         (enumerate 0 (keyboardKeys s)))\<rparr>"
  using dragLoop_keys [of x y 0 "keyboardKeys s"] dragLoop_log [of x y 0 "keyboardKeys s"]
  by (simp add: cursor_position_callback_def case_prod_beta)

lemma adjacentKeys_simps:
  "keyboardKeys adjacentKeys =
     [\<lparr>label = ''X'', pos = Vec2 0 0, ksize = Vec2 60 60, pressAnim = 0,
       isPressed = False, keycapRemoved = False, ktype = ALPHANUM\<rparr>,
      \<lparr>label = ''Y'', pos = Vec2 60 0, ksize = Vec2 60 60, pressAnim = 0,
       isPressed = False, keycapRemoved = False, ktype = ALPHANUM\<rparr>]"
  "sounds adjacentKeys = []"
  "g_leftMouseDown adjacentKeys = False"
  by (simp_all add: adjacentKeys_def addKey_simps initial_board_def layout_defs)

text \<open>
  C8. A key event whose key code is not in the lookup is ignored, whatever its action:
  the callback returns the state it was given, so no key's isPressed, pressAnim or
  keycapRemoved changes and no sound thread is launched, and it reports no error.  This
  holds for the callback of the full-size board and for that of the compact board.
\<close>

theorem keyCallback_unmapped:
  "(glfwKeyToIndex s key = None \<longrightarrow> keyCallback s key scancode action mods = Inr s)
   \<and> (glfwKeyToIndex c key = None \<longrightarrow> keyCallback_compact c key scancode action mods = c)"
  by (simp add: keyCallback_def keyCallback_compact_def)

text \<open>
  The Tab key (code 258) is in neither layout; pressing it changes nothing.
\<close>

theorem keyCallback_unmapped_witness:
  "glfwKeyToIndex board_1080p 258 = None
   \<and> keyCallback board_1080p 258 15 GLFW_PRESS 0 = Inr board_1080p
   \<and> glfwKeyToIndex (initKeyboard 1280 720 initial_keyboard) 258 = None
   \<and> keyCallback_compact (initKeyboard 1280 720 initial_keyboard) 258 15 GLFW_PRESS 0
       = initKeyboard 1280 720 initial_keyboard"
  using keyCallback_unmapped [where s = board_1080p and key = 258 and scancode = 15
      and action = GLFW_PRESS and mods = 0 and c = "initKeyboard 1280 720 initial_keyboard"]
    board_lookup_TAB compact_lookup_TAB
  by simp

text \<open>
  C10. A key event whose action is neither GLFW_PRESS nor GLFW_RELEASE (GLFW_REPEAT, the
  key-repeat action, for instance) leaves the state as it is, for a mapped key too: no
  key's isPressed, pressAnim or keycapRemoved changes and no sound thread is launched.
  This holds for the callback of the full-size board and for that of the compact board.
\<close>

theorem keyCallback_other_action:
  "(action \<noteq> GLFW_PRESS \<and> action \<noteq> GLFW_RELEASE \<longrightarrow>
      keyCallback s key scancode action mods = Inr s)
   \<and> (action \<noteq> GLFW_PRESS \<and> action \<noteq> GLFW_RELEASE \<longrightarrow>
      keyCallback_compact c key scancode action mods = c)"
  by (simp add: keyCallback_def keyCallback_compact_def split: option.splits)

text \<open>
  A repeat event for the A key, which both layouts map.
\<close>

theorem keyCallback_other_action_witness:
  "GLFW_REPEAT \<noteq> GLFW_PRESS \<and> GLFW_REPEAT \<noteq> GLFW_RELEASE
   \<and> glfwKeyToIndex board_1080p GLFW_KEY_A = Some 39
   \<and> keyCallback board_1080p GLFW_KEY_A 30 GLFW_REPEAT 0 = Inr board_1080p
   \<and> glfwKeyToIndex (initKeyboard 1280 720 initial_keyboard) GLFW_KEY_A = Some 32
   \<and> keyCallback_compact (initKeyboard 1280 720 initial_keyboard) GLFW_KEY_A 30 GLFW_REPEAT 0
       = initKeyboard 1280 720 initial_keyboard"
  using keyCallback_other_action [where s = board_1080p and key = GLFW_KEY_A and scancode = 30
      and action = GLFW_REPEAT and mods = 0 and c = "initKeyboard 1280 720 initial_keyboard"]
    board_lookup_A compact_lookup_A
  by (simp add: GLFW_REPEAT_def GLFW_PRESS_def GLFW_RELEASE_def)

text \<open>
  C6. With the left button held, take a sequence of pointer-move events that consists of
  one or more positions outside key Y's rectangle followed by one or more positions
  inside it, the last of them outside key X's rectangle.  Then Y ends pressed, X ends
  released, and the events launch exactly one sound for Y, however many of them lie
  over Y.  The condition that the cursor stays over Y once it has entered is needed: in
  general the events launch one sound for Y each time the cursor enters Y
  (\<open>cursor_moves_count\<close>).
\<close>

theorem drag_enters_once:
  assumes held: "g_leftMouseDown s"
    and X: "X < length (keyboardKeys s)" and Y: "Y < length (keyboardKeys s)"
    and pre: "pre \<noteq> []" "\<forall>p\<in>set pre. \<not> cursorOver (fst p) (snd p) (keyboardKeys s ! Y)"
    and post: "post \<noteq> []" "\<forall>p\<in>set post. cursorOver (fst p) (snd p) (keyboardKeys s ! Y)"
    and offX: "\<not> cursorOver (fst (last post)) (snd (last post)) (keyboardKeys s ! X)"
  shows "isPressed (keyboardKeys (cursor_moves s (pre @ post)) ! Y)
       \<and> \<not> isPressed (keyboardKeys (cursor_moves s (pre @ post)) ! X)
       \<and> (\<exists>log. sounds (cursor_moves s (pre @ post)) = sounds s @ log \<and> count_list log Y = 1)"
proof -
  let ?s1 = "cursor_moves s pre"
  have keys: "keyboardKeys (cursor_moves s (pre @ post)) =
      map (\<lambda>k. k\<lparr>isPressed := cursorOver (fst (last post)) (snd (last post)) k\<rparr>) (keyboardKeys s)"
    using cursor_moves_keys [OF held, of "pre @ post"] post(1) by simp
  have endY: "isPressed (keyboardKeys (cursor_moves s (pre @ post)) ! Y)"
    using keys Y post by simp
  have endX: "\<not> isPressed (keyboardKeys (cursor_moves s (pre @ post)) ! X)"
    using keys X offX by simp
  have held1: "g_leftMouseDown ?s1"
    using held by (simp add: cursor_moves_held)
  have keys1: "keyboardKeys ?s1 =
      map (\<lambda>k. k\<lparr>isPressed := cursorOver (fst (last pre)) (snd (last pre)) k\<rparr>) (keyboardKeys s)"
    using cursor_moves_keys [OF held pre(1)] .
  have Y1: "keyboardKeys ?s1 ! Y = (keyboardKeys s ! Y)\<lparr>isPressed := False\<rparr>"
    using keys1 Y pre by simp
  obtain log1 where log1: "sounds ?s1 = sounds s @ log1" "count_list log1 Y = 0"
    using moves_outside_count [OF held Y pre(2)] by blast
  have "\<exists>log. sounds (cursor_moves ?s1 post) = sounds ?s1 @ log \<and>
      count_list log Y = (if post \<noteq> [] \<and> \<not> isPressed (keyboardKeys ?s1 ! Y) then 1 else 0)"
    using held1 Y post(2) Y1 keys1 by (intro moves_inside_count) simp_all
  then obtain log2 where log2: "sounds (cursor_moves ?s1 post) = sounds ?s1 @ log2"
      "count_list log2 Y = 1"
    using Y1 post(1) by auto
  have "sounds (cursor_moves s (pre @ post)) = sounds s @ (log1 @ log2)"
    using log1 log2 by (simp add: cursor_moves_append)
  moreover have "count_list (log1 @ log2) Y = 1"
    using log1 log2 by simp
  ultimately show ?thesis using endX endY by blast
qed

text \<open>
  On the board of a 1920 by 1080 monitor: the button goes down on Esc (slot 0), the
  cursor moves within Esc, crosses the gap and moves within F1 (slot 1).
\<close>

theorem drag_enters_once_witness:
  "(let s = mouse_button_callback board_1080p 516 375 GLFW_MOUSE_BUTTON_LEFT GLFW_PRESS 0;
        s' = cursor_moves s ([(530, 375), (549, 375)] @ [(556, 375), (580, 375)])
    in g_leftMouseDown s
     \<and> isPressed (keyboardKeys s ! 0) \<and> \<not> isPressed (keyboardKeys s ! 1)
     \<and> cursorOver 530 375 (keyboardKeys s ! 0)
     \<and> \<not> cursorOver 530 375 (keyboardKeys s ! 1) \<and> \<not> cursorOver 549 375 (keyboardKeys s ! 1)
     \<and> cursorOver 556 375 (keyboardKeys s ! 1) \<and> cursorOver 580 375 (keyboardKeys s ! 1)
     \<and> \<not> cursorOver 580 375 (keyboardKeys s ! 0)
     \<and> isPressed (keyboardKeys s' ! 1) \<and> \<not> isPressed (keyboardKeys s' ! 0)
     \<and> (\<exists>log. sounds s' = sounds s @ log \<and> count_list log 1 = 1))"
proof -
  let ?s = "mouse_button_callback board_1080p 516 375 GLFW_MOUSE_BUTTON_LEFT GLFW_PRESS 0"
  have held: "g_leftMouseDown ?s" by (simp add: pressedEsc)
  have len: "0 < length (keyboardKeys ?s)" "1 < length (keyboardKeys ?s)"
    by (simp_all add: pressedEsc board_1080p_slots)
  have k0: "keyboardKeys ?s ! 0 = (boardKeys 486 345 ! 0)\<lparr>isPressed := True\<rparr>"
    by (simp add: pressedEsc board_1080p_slots(1))
  have k1: "keyboardKeys ?s ! Suc 0 = boardKeys 486 345 ! Suc 0"
    by (simp add: pressedEsc board_1080p_slots(1))
  have hits: "cursorOver 530 375 (keyboardKeys ?s ! 0)"
    "\<not> cursorOver 530 375 (keyboardKeys ?s ! 1)" "\<not> cursorOver 549 375 (keyboardKeys ?s ! 1)"
    "cursorOver 556 375 (keyboardKeys ?s ! 1)" "cursorOver 580 375 (keyboardKeys ?s ! 1)"
    "\<not> cursorOver 580 375 (keyboardKeys ?s ! 0)"
    by (simp_all add: k0 k1 board_1080p_slots cursorOver_def)
  show ?thesis
    using drag_enters_once [of ?s 0 1 "[(530, 375), (549, 375)]" "[(556, 375), (580, 375)]"]
      held len hits
    by (simp add: Let_def k0 k1 board_1080p_slots)
qed

text \<open>
  The same board; the cursor goes from strictly inside Esc to strictly inside F1, back
  to Esc and to F1 again.  The sequence starts strictly inside one key and ends strictly
  inside the other, and it launches two sounds for F1.
\<close>

theorem drag_reentry_counterexample:
  "(let s = mouse_button_callback board_1080p 516 375 GLFW_MOUSE_BUTTON_LEFT GLFW_PRESS 0;
        s' = cursor_moves s [(516, 375), (580, 375), (516, 375), (580, 375)]
    in g_leftMouseDown s
     \<and> label (keyboardKeys s ! 0) = ''Esc'' \<and> label (keyboardKeys s ! 1) = ''F1''
     \<and> strictlyInside 516 375 (keyboardKeys s ! 0)
     \<and> strictlyInside 580 375 (keyboardKeys s ! 1)
     \<and> (\<exists>log. sounds s' = sounds s @ log \<and> count_list log 1 = 2))"
proof -
  let ?s = "mouse_button_callback board_1080p 516 375 GLFW_MOUSE_BUTTON_LEFT GLFW_PRESS 0"
  have held: "g_leftMouseDown ?s" by (simp add: pressedEsc)
  have len: "1 < length (keyboardKeys ?s)" by (simp add: pressedEsc board_1080p_slots)
  have k0: "keyboardKeys ?s ! 0 = (boardKeys 486 345 ! 0)\<lparr>isPressed := True\<rparr>"
    by (simp add: pressedEsc board_1080p_slots(1))
  have k1: "keyboardKeys ?s ! Suc 0 = boardKeys 486 345 ! Suc 0"
    by (simp add: pressedEsc board_1080p_slots(1))
  have "\<exists>log. sounds (cursor_moves ?s [(516, 375), (580, 375), (516, 375), (580, 375)])
          = sounds ?s @ log \<and> count_list log 1 = 2"
    using cursor_moves_count [OF held len, of "[(516, 375), (580, 375), (516, 375), (580, 375)]"]
    by (simp add: k1 board_1080p_slots cursorOver_def numeral_2_eq_2)
  then show ?thesis
    using held by (simp add: Let_def k0 k1 board_1080p_slots strictlyInside_def)
qed

text \<open>
  Keys with the rectangles of the full-size layout: the first key under the cursor is the
  only one.  Two right presses with the same first key under the cursor undo each other.
  The layout gives the keys their rectangles and the input handlers keep them, so the
  keys of the running full-size board have the rectangles of the layout at all times.
\<close>

lemma sameRects_refl: "sameRects ks ks"
  by (simp add: sameRects_def)

lemma sameRects_cursorOver:
  assumes "sameRects ks ks'" and "j < length ks"
  shows "cursorOver x y (ks ! j) = cursorOver x y (ks' ! j)"
proof -
  have len: "length ks = length ks'"
    using assms(1) unfolding sameRects_def by (metis length_map)
  have "map pos ks ! j = map pos ks' ! j" "map ksize ks ! j = map ksize ks' ! j"
    using assms(1) by (simp_all add: sameRects_def)
  then have "pos (ks ! j) = pos (ks' ! j)" "ksize (ks ! j) = ksize (ks' ! j)"
    using assms(2) len by simp_all
  then show ?thesis by (simp add: cursorOver_def)
qed

lemma sameRects_length: "sameRects ks ks' \<Longrightarrow> length ks = length ks'"
  unfolding sameRects_def by (metis length_map)

lemma layout_first_match:
  assumes "sameRects ks (boardKeys sx sy)" and "i < length ks" and "cursorOver x y (ks ! i)"
  shows "\<forall>j<i. \<not> cursorOver x y (ks ! j)"
proof (intro allI impI)
  fix j assume j: "j < i"
  have len: "i < length (boardKeys sx sy)"
    using assms(1,2) sameRects_length by fastforce
  have "\<not> (cursorOver x y (boardKeys sx sy ! j) \<and> cursorOver x y (boardKeys sx sy ! i))"
    using j len by (rule board_no_overlap)
  moreover have "cursorOver x y (boardKeys sx sy ! i)"
    using assms sameRects_cursorOver [OF assms(1,2)] by simp
  moreover have "cursorOver x y (ks ! j) = cursorOver x y (boardKeys sx sy ! j)"
    using j assms(2) by (intro sameRects_cursorOver [OF assms(1)]) simp
  ultimately show "\<not> cursorOver x y (ks ! j)" by simp
qed

lemma toggleLoop_twice_first:
  assumes i: "i < length ks"
    and a: "cursorOver x1 y1 (ks ! i)" "\<forall>j<i. \<not> cursorOver x1 y1 (ks ! j)"
    and b: "cursorOver x2 y2 (ks ! i)" "\<forall>j<i. \<not> cursorOver x2 y2 (ks ! j)"
  shows "toggleLoop x2 y2 (toggleLoop x1 y1 ks) = ks"
proof -
  let ?k = "(ks ! i)\<lparr>keycapRemoved := \<not> keycapRemoved (ks ! i)\<rparr>"
  let ?ks = "ks[i := ?k]"
  have one: "toggleLoop x1 y1 ks = ?ks" using i a by (rule toggleLoop_first)
  have "toggleLoop x2 y2 ?ks = ?ks[i := (?ks ! i)\<lparr>keycapRemoved := \<not> keycapRemoved (?ks ! i)\<rparr>]"
    using i b by (intro toggleLoop_first) simp_all
  also have "\<dots> = ks" using i by (simp add: list_update_same_conv)
  finally show ?thesis using one by simp
qed

lemma toggleLoop_rects:
  "map pos (toggleLoop x y ks) = map pos ks" "map ksize (toggleLoop x y ks) = map ksize ks"
  by (induction ks) auto

lemma pressLoop_rects:
  "map pos (fst (pressLoop x y n ks)) = map pos ks"
  "map ksize (fst (pressLoop x y n ks)) = map ksize ks"
  by (induction ks arbitrary: n) (auto simp: case_prod_beta)

lemma mouse_button_callback_rects:
  "sameRects (keyboardKeys (mouse_button_callback s x y button action mods)) (keyboardKeys s)"
  by (simp add: mouse_button_callback_def sameRects_def case_prod_beta toggleLoop_rects
      pressLoop_rects comp_def)

lemma cursor_position_callback_rects:
  "sameRects (keyboardKeys (cursor_position_callback s x y)) (keyboardKeys s)"
proof (cases "g_leftMouseDown s")
  case True
  then show ?thesis by (simp add: cpc_keys sameRects_def comp_def)
next
  case False
  then show ?thesis by (simp add: cursor_position_callback_def sameRects_def)
qed

lemma keyCallback_rects:
  "keyCallback s key scancode action mods = Inr s' \<Longrightarrow>
   sameRects (keyboardKeys s') (keyboardKeys s)"
  by (auto simp: keyCallback_def sameRects_def map_update list_update_same_conv nat_less_iff
      split: option.splits if_splits)

lemma sameRects_trans: "sameRects ks ks' \<Longrightarrow> sameRects ks' ks'' \<Longrightarrow> sameRects ks ks''"
  by (simp add: sameRects_def)

lemma main_init_rects:
  "sameRects (keyboardKeys (main_init w h s0)) (boardKeys ((w - 948) / 2) ((h - 390) / 2))"
  by (simp add: main_init_def Let_def initKeyboardLayout_keys sameRects_refl layout_defs)

lemma board_1080p_Q:
  "boardKeys 486 345 ! 27 =
     \<lparr>label = ''Q'', pos = Vec2 486 477, ksize = Vec2 60 60, pressAnim = 0,
      isPressed = False, keycapRemoved = False, ktype = ALPHANUM\<rparr>"
  by (simp add: boardKeys_def boardTable_def layout_defs)

text \<open>
  C9. A right-button press toggles keycapRemoved of the first key under the cursor and
  nothing else.  Two presses at one position give back the state they started from.  Two
  presses at two positions, with the same key the first one under the cursor at both,
  give back the state they started from as well, so that key's keycapRemoved has its
  original value.  On the full-size layout, wherever it is placed and whatever the other
  fields of its keys are, this holds for every key and any two positions over it: the
  first press toggles that key and no other, the second restores the state.  One press
  leaves every key's isPressed as it was; releasing the right button changes nothing.
\<close>

theorem right_click_toggle:
  "mouse_button_callback
       (mouse_button_callback s xpos ypos GLFW_MOUSE_BUTTON_RIGHT GLFW_PRESS mods)
       xpos ypos GLFW_MOUSE_BUTTON_RIGHT GLFW_PRESS mods' = s
   \<and> mouse_button_callback s xpos ypos GLFW_MOUSE_BUTTON_RIGHT GLFW_RELEASE mods = s
   \<and> map isPressed
         (keyboardKeys (mouse_button_callback s xpos ypos GLFW_MOUSE_BUTTON_RIGHT GLFW_PRESS mods))
       = map isPressed (keyboardKeys s)
   \<and> (i < length (keyboardKeys s) \<and> cursorOver xpos ypos (keyboardKeys s ! i)
        \<and> (\<forall>j<i. \<not> cursorOver xpos ypos (keyboardKeys s ! j)) \<longrightarrow>
       keycapRemoved
         (keyboardKeys (mouse_button_callback s xpos ypos GLFW_MOUSE_BUTTON_RIGHT GLFW_PRESS mods) ! i)
       = (\<not> keycapRemoved (keyboardKeys s ! i)))
   \<and> (i < length (keyboardKeys s)
        \<and> cursorOver xpos ypos (keyboardKeys s ! i)
        \<and> (\<forall>j<i. \<not> cursorOver xpos ypos (keyboardKeys s ! j))
        \<and> cursorOver xpos' ypos' (keyboardKeys s ! i)
        \<and> (\<forall>j<i. \<not> cursorOver xpos' ypos' (keyboardKeys s ! j)) \<longrightarrow>
       mouse_button_callback
         (mouse_button_callback s xpos ypos GLFW_MOUSE_BUTTON_RIGHT GLFW_PRESS mods)
         xpos' ypos' GLFW_MOUSE_BUTTON_RIGHT GLFW_PRESS mods' = s)
   \<and> (sameRects (keyboardKeys s) (boardKeys sx sy)
        \<and> i < length (keyboardKeys s)
        \<and> cursorOver xpos ypos (keyboardKeys s ! i)
        \<and> cursorOver xpos' ypos' (keyboardKeys s ! i) \<longrightarrow>
       mouse_button_callback s xpos ypos GLFW_MOUSE_BUTTON_RIGHT GLFW_PRESS mods =
         s\<lparr>keyboardKeys := (keyboardKeys s)
              [i := (keyboardKeys s ! i)\<lparr>keycapRemoved := \<not> keycapRemoved (keyboardKeys s ! i)\<rparr>]\<rparr>
       \<and> mouse_button_callback
           (mouse_button_callback s xpos ypos GLFW_MOUSE_BUTTON_RIGHT GLFW_PRESS mods)
           xpos' ypos' GLFW_MOUSE_BUTTON_RIGHT GLFW_PRESS mods' = s)"
proof -
  have same: "mouse_button_callback
       (mouse_button_callback s xpos ypos GLFW_MOUSE_BUTTON_RIGHT GLFW_PRESS mods)
       xpos ypos GLFW_MOUSE_BUTTON_RIGHT GLFW_PRESS mods' = s"
    by (simp add: right_press toggleLoop_twice)
  have pressed: "map isPressed
         (keyboardKeys (mouse_button_callback s xpos ypos GLFW_MOUSE_BUTTON_RIGHT GLFW_PRESS mods))
       = map isPressed (keyboardKeys s)"
    by (simp add: right_press toggleLoop_isPressed)
  have one: "keycapRemoved
         (keyboardKeys (mouse_button_callback s xpos ypos GLFW_MOUSE_BUTTON_RIGHT GLFW_PRESS mods) ! i)
       = (\<not> keycapRemoved (keyboardKeys s ! i))"
    if "i < length (keyboardKeys s)" "cursorOver xpos ypos (keyboardKeys s ! i)"
       "\<forall>j<i. \<not> cursorOver xpos ypos (keyboardKeys s ! j)"
    using right_press_first [OF that, of mods] that(1) by simp
  have two: "mouse_button_callback
         (mouse_button_callback s xpos ypos GLFW_MOUSE_BUTTON_RIGHT GLFW_PRESS mods)
         xpos' ypos' GLFW_MOUSE_BUTTON_RIGHT GLFW_PRESS mods' = s"
    if "i < length (keyboardKeys s)" "cursorOver xpos ypos (keyboardKeys s ! i)"
       "\<forall>j<i. \<not> cursorOver xpos ypos (keyboardKeys s ! j)"
       "cursorOver xpos' ypos' (keyboardKeys s ! i)"
       "\<forall>j<i. \<not> cursorOver xpos' ypos' (keyboardKeys s ! j)"
    using toggleLoop_twice_first [OF that] by (simp add: right_press)
  have layout: "mouse_button_callback s xpos ypos GLFW_MOUSE_BUTTON_RIGHT GLFW_PRESS mods =
         s\<lparr>keyboardKeys := (keyboardKeys s)
              [i := (keyboardKeys s ! i)\<lparr>keycapRemoved := \<not> keycapRemoved (keyboardKeys s ! i)\<rparr>]\<rparr>
       \<and> mouse_button_callback
           (mouse_button_callback s xpos ypos GLFW_MOUSE_BUTTON_RIGHT GLFW_PRESS mods)
           xpos' ypos' GLFW_MOUSE_BUTTON_RIGHT GLFW_PRESS mods' = s"
    if r: "sameRects (keyboardKeys s) (boardKeys sx sy)" and i: "i < length (keyboardKeys s)"
      and a: "cursorOver xpos ypos (keyboardKeys s ! i)"
      and b: "cursorOver xpos' ypos' (keyboardKeys s ! i)"
  proof -
    have fa: "\<forall>j<i. \<not> cursorOver xpos ypos (keyboardKeys s ! j)"
      using r i a by (rule layout_first_match)
    have fb: "\<forall>j<i. \<not> cursorOver xpos' ypos' (keyboardKeys s ! j)"
      using r i b by (rule layout_first_match)
    have "mouse_button_callback
           (mouse_button_callback s xpos ypos GLFW_MOUSE_BUTTON_RIGHT GLFW_PRESS mods)
           xpos' ypos' GLFW_MOUSE_BUTTON_RIGHT GLFW_PRESS mods' = s"
      by (simp add: right_press toggleLoop_twice_first [OF i a fa b fb])
    then show ?thesis
      using right_press_first [OF i a fa, of mods] by simp
  qed
  show ?thesis
    using same pressed one two layout right_release [of s xpos ypos mods] by blast
qed

text \<open>
  Two right clicks over Q (slot 27) on the board of a 1920 by 1080 monitor, at two
  positions; and two right clicks over X on the board of two touching keys, the second
  on the edge that X shares with Y.
\<close>

theorem right_click_toggle_witness:
  "sameRects (keyboardKeys board_1080p) (boardKeys 486 345)
   \<and> (27::nat) < length (keyboardKeys board_1080p)
   \<and> label (keyboardKeys board_1080p ! 27) = ''Q''
   \<and> cursorOver 500 490 (keyboardKeys board_1080p ! 27)
   \<and> cursorOver 540 530 (keyboardKeys board_1080p ! 27)
   \<and> \<not> keycapRemoved (keyboardKeys board_1080p ! 27)
   \<and> keycapRemoved
        (keyboardKeys (mouse_button_callback board_1080p 500 490
           GLFW_MOUSE_BUTTON_RIGHT GLFW_PRESS 0) ! 27)
   \<and> mouse_button_callback
        (mouse_button_callback board_1080p 500 490 GLFW_MOUSE_BUTTON_RIGHT GLFW_PRESS 0)
        540 530 GLFW_MOUSE_BUTTON_RIGHT GLFW_PRESS 0 = board_1080p
   \<and> cursorOver 30 30 (keyboardKeys adjacentKeys ! 0)
   \<and> cursorOver 60 30 (keyboardKeys adjacentKeys ! 0)
   \<and> map keycapRemoved (keyboardKeys (mouse_button_callback adjacentKeys 30 30
           GLFW_MOUSE_BUTTON_RIGHT GLFW_PRESS 0)) = [True, False]
   \<and> mouse_button_callback
        (mouse_button_callback adjacentKeys 30 30 GLFW_MOUSE_BUTTON_RIGHT GLFW_PRESS 0)
        60 30 GLFW_MOUSE_BUTTON_RIGHT GLFW_PRESS 0 = adjacentKeys"
proof -
  have r: "sameRects (keyboardKeys board_1080p) (boardKeys 486 345)"
    by (simp add: board_1080p_simps sameRects_refl)
  have len: "(27::nat) < length (keyboardKeys board_1080p)"
    by (simp add: board_1080p_simps board_1080p_slots)
  have q: "keyboardKeys board_1080p ! 27 =
     \<lparr>label = ''Q'', pos = Vec2 486 477, ksize = Vec2 60 60, pressAnim = 0,
      isPressed = False, keycapRemoved = False, ktype = ALPHANUM\<rparr>"
    by (simp add: board_1080p_simps board_1080p_Q)
  have hits: "cursorOver 500 490 (keyboardKeys board_1080p ! 27)"
    "cursorOver 540 530 (keyboardKeys board_1080p ! 27)"
    by (simp_all add: q cursorOver_def)
  have layout: "mouse_button_callback board_1080p 500 490 GLFW_MOUSE_BUTTON_RIGHT GLFW_PRESS 0 =
         board_1080p\<lparr>keyboardKeys := (keyboardKeys board_1080p)
              [27 := (keyboardKeys board_1080p ! 27)
                 \<lparr>keycapRemoved := \<not> keycapRemoved (keyboardKeys board_1080p ! 27)\<rparr>]\<rparr>"
    "mouse_button_callback
        (mouse_button_callback board_1080p 500 490 GLFW_MOUSE_BUTTON_RIGHT GLFW_PRESS 0)
        540 530 GLFW_MOUSE_BUTTON_RIGHT GLFW_PRESS 0 = board_1080p"
    using right_click_toggle [where s = board_1080p and i = 27 and xpos = 500 and ypos = 490
      and xpos' = 540 and ypos' = 530 and sx = 486 and sy = 345 and mods = 0 and mods' = 0]
      r len hits by blast+
  have removed: "keycapRemoved
        (keyboardKeys (mouse_button_callback board_1080p 500 490
           GLFW_MOUSE_BUTTON_RIGHT GLFW_PRESS 0) ! 27)"
    using len by (simp add: layout(1) q)
  have adj: "cursorOver 30 30 (keyboardKeys adjacentKeys ! 0)"
    "cursorOver 60 30 (keyboardKeys adjacentKeys ! 0)"
    by (simp_all add: adjacentKeys_simps cursorOver_def)
  have adj2: "mouse_button_callback
        (mouse_button_callback adjacentKeys 30 30 GLFW_MOUSE_BUTTON_RIGHT GLFW_PRESS 0)
        60 30 GLFW_MOUSE_BUTTON_RIGHT GLFW_PRESS 0 = adjacentKeys"
    using right_click_toggle [where s = adjacentKeys and i = 0 and xpos = 30 and ypos = 30
      and xpos' = 60 and ypos' = 30 and mods = 0 and mods' = 0] adj
    by (simp add: adjacentKeys_simps)
  have adj1: "map keycapRemoved (keyboardKeys (mouse_button_callback adjacentKeys 30 30
           GLFW_MOUSE_BUTTON_RIGHT GLFW_PRESS 0)) = [True, False]"
    by (simp add: right_press adjacentKeys_simps cursorOver_def)
  show ?thesis
    using r len hits removed layout(2) adj adj1 adj2 by (simp add: q)
qed

text \<open>
  C5. The three pointer handlers test the cursor against the closed rectangle of a key.
  A left press and a right press act on the first key under the cursor, in slot order,
  and on no other key; when no key is under the cursor the left press only records that
  the button is down and the right press does nothing.  A pointer move with the left
  button held has no first-match rule: every key under the cursor is pressed, one sound
  is launched for each of them that was not pressed, and every other key is released.
  A pointer move without the button held does nothing.
\<close>

theorem pointer_hit_testing:
  "(cursorOver xpos ypos k \<longleftrightarrow>
      xpos \<in> {vx (pos k) .. vx (pos k) + vx (ksize k)} \<and>
      ypos \<in> {vy (pos k) .. vy (pos k) + vy (ksize k)})
   \<and> (i < length (keyboardKeys s) \<and> cursorOver xpos ypos (keyboardKeys s ! i)
        \<and> (\<forall>j<i. \<not> cursorOver xpos ypos (keyboardKeys s ! j)) \<longrightarrow>
       mouse_button_callback s xpos ypos GLFW_MOUSE_BUTTON_LEFT GLFW_PRESS mods =
         s\<lparr>keyboardKeys := (keyboardKeys s)[i := (keyboardKeys s ! i)\<lparr>isPressed := True\<rparr>],
           sounds := sounds s @ [i], g_leftMouseDown := True\<rparr>
       \<and> mouse_button_callback s xpos ypos GLFW_MOUSE_BUTTON_RIGHT GLFW_PRESS mods =
         s\<lparr>keyboardKeys := (keyboardKeys s)
              [i := (keyboardKeys s ! i)\<lparr>keycapRemoved := \<not> keycapRemoved (keyboardKeys s ! i)\<rparr>]\<rparr>)
   \<and> ((\<forall>k\<in>set (keyboardKeys s). \<not> cursorOver xpos ypos k) \<longrightarrow>
       mouse_button_callback s xpos ypos GLFW_MOUSE_BUTTON_LEFT GLFW_PRESS mods =
         s\<lparr>g_leftMouseDown := True\<rparr>
       \<and> mouse_button_callback s xpos ypos GLFW_MOUSE_BUTTON_RIGHT GLFW_PRESS mods = s)
   \<and> (g_leftMouseDown s \<longrightarrow>
       cursor_position_callback s xpos ypos =
         s\<lparr>keyboardKeys := map (\<lambda>k. k\<lparr>isPressed := cursorOver xpos ypos k\<rparr>) (keyboardKeys s),
           sounds := sounds s @ map fst (filter (\<lambda>(j, k). cursorOver xpos ypos k \<and> \<not> isPressed k)
                                             (enumerate 0 (keyboardKeys s)))\<rparr>)
   \<and> (\<not> g_leftMouseDown s \<longrightarrow> cursor_position_callback s xpos ypos = s)"
proof -
  have "cursorOver xpos ypos k \<longleftrightarrow>
      xpos \<in> {vx (pos k) .. vx (pos k) + vx (ksize k)} \<and>
      ypos \<in> {vy (pos k) .. vy (pos k) + vy (ksize k)}"
    by (auto simp: cursorOver_def)
  moreover have "\<not> g_leftMouseDown s \<longrightarrow> cursor_position_callback s xpos ypos = s"
    by (simp add: cursor_position_callback_def)
  moreover have "(\<forall>k\<in>set (keyboardKeys s). \<not> cursorOver xpos ypos k) \<longrightarrow>
       mouse_button_callback s xpos ypos GLFW_MOUSE_BUTTON_LEFT GLFW_PRESS mods =
         s\<lparr>g_leftMouseDown := True\<rparr>
       \<and> mouse_button_callback s xpos ypos GLFW_MOUSE_BUTTON_RIGHT GLFW_PRESS mods = s"
    by (simp add: left_press right_press pressLoop_none toggleLoop_none)
  ultimately show ?thesis
    using left_press_first [of i s xpos ypos mods] right_press_first [of i s xpos ypos mods]
      cpc_eq [of s xpos ypos]
    by blast
qed

text \<open>
  The two keys that share an edge, with the cursor on that edge.
\<close>

theorem pointer_hit_testing_witness:
  "(let s = mouse_button_callback adjacentKeys 30 30 GLFW_MOUSE_BUTTON_LEFT GLFW_PRESS 0
    in cursorOver 60 30 (keyboardKeys adjacentKeys ! 0)
     \<and> cursorOver 60 30 (keyboardKeys adjacentKeys ! 1)
     \<and> map isPressed (keyboardKeys
          (mouse_button_callback adjacentKeys 60 30 GLFW_MOUSE_BUTTON_LEFT GLFW_PRESS 0))
        = [True, False]
     \<and> sounds (mouse_button_callback adjacentKeys 60 30 GLFW_MOUSE_BUTTON_LEFT GLFW_PRESS 0) = [0]
     \<and> map keycapRemoved (keyboardKeys
          (mouse_button_callback adjacentKeys 60 30 GLFW_MOUSE_BUTTON_RIGHT GLFW_PRESS 0))
        = [True, False]
     \<and> mouse_button_callback adjacentKeys 200 30 GLFW_MOUSE_BUTTON_RIGHT GLFW_PRESS 0
        = adjacentKeys
     \<and> mouse_button_callback adjacentKeys 200 30 GLFW_MOUSE_BUTTON_LEFT GLFW_PRESS 0
        = adjacentKeys\<lparr>g_leftMouseDown := True\<rparr>
     \<and> cursor_position_callback adjacentKeys 60 30 = adjacentKeys
     \<and> g_leftMouseDown s
     \<and> map isPressed (keyboardKeys s) = [True, False]
     \<and> map isPressed (keyboardKeys (cursor_position_callback s 60 30)) = [True, True]
     \<and> sounds (cursor_position_callback s 60 30) = sounds s @ [1])"
  using pointer_hit_testing [of 60 30 "keyboardKeys adjacentKeys ! 0" 0 adjacentKeys 0]
    pointer_hit_testing [of 200 30 "keyboardKeys adjacentKeys ! 0" 0 adjacentKeys 0]
    pointer_hit_testing [of 30 30 "keyboardKeys adjacentKeys ! 0" 0 adjacentKeys 0]
    pointer_hit_testing [of 60 30 "keyboardKeys adjacentKeys ! 0" 0
      "mouse_button_callback adjacentKeys 30 30 GLFW_MOUSE_BUTTON_LEFT GLFW_PRESS 0" 0]
  by (simp add: adjacentKeys_simps cursorOver_def Let_def)

text \<open>
  The button goes down inside X, then the cursor moves onto the shared edge: it is over
  X and over Y, and the move presses Y, the second key in slot order, with a sound.
\<close>

theorem drag_presses_every_match_counterexample:
  "(let s = mouse_button_callback adjacentKeys 30 30 GLFW_MOUSE_BUTTON_LEFT GLFW_PRESS 0;
        s' = cursor_position_callback s 60 30
    in g_leftMouseDown s
     \<and> cursorOver 60 30 (keyboardKeys s ! 0) \<and> cursorOver 60 30 (keyboardKeys s ! 1)
     \<and> \<not> isPressed (keyboardKeys s ! 1)
     \<and> isPressed (keyboardKeys s' ! 1)
     \<and> sounds s' = sounds s @ [1])"
  by (simp add: left_press cpc_eq adjacentKeys_simps cursorOver_def Let_def)

end
